theory Spec2Isabelle
  imports Complex_Main "HOL-Library.Multiset" "HOL-Library.Sublist" "HOL-Library.Log_Nat"
begin

section \<open>Data model\<close>

text \<open>
  The stored documents of the collection \<^verbatim>\<open>imported_plays\<close>. Only the fields that a pipeline
  of \<^verbatim>\<open>really-wrapped.mts\<close> reads are kept; \<^verbatim>\<open>ts\<close> is a BSON date, held as
  milliseconds since the epoch (UTC). The metadata strings and the track URI are \<^verbatim>\<open>null\<close>
  for podcast episodes, so they are optional. The collection is a list in natural
  (insertion) order.
\<close>

record PlayRecord =
  ts :: int
  ms_played :: int
  master_metadata_track_name :: "string option"
  master_metadata_album_artist_name :: "string option"
  master_metadata_album_album_name :: "string option"
  spotify_track_uri :: "string option"
  incognito_mode :: bool

type_synonym store = "PlayRecord list"

datatype js_error = TypeError | SyntaxError | FsError

section \<open>The shared filter\<close>

definition excluded_track_uris :: "string list" where
  "excluded_track_uris = [''spotify:track:1PZoHdDM71mzOFW1T6H03y'']"

text \<open>\<^verbatim>\<open>new Date("2024-01-01T00:00:00Z")\<close> and \<^verbatim>\<open>new Date("2025-01-01T00:00:00Z")\<close>.\<close>

definition range_start :: int where
  "range_start = 1704067200000"

definition range_end :: int where
  "range_end = 1735689600000"

text \<open>
  The constant \<^verbatim>\<open>filter\<close> of the source, as the predicate that \<^verbatim>\<open>$match\<close> applies.
  \<^verbatim>\<open>$nin\<close> also accepts a document whose field is null.
\<close>

definition matches_filter :: "PlayRecord \<Rightarrow> bool" where
  "matches_filter e \<longleftrightarrow>
     incognito_mode e = False \<and>
     30000 \<le> ms_played e \<and>
     (case spotify_track_uri e of None \<Rightarrow> True | Some u \<Rightarrow> u \<notin> set excluded_track_uris) \<and>
     range_start \<le> ts e \<and> ts e < range_end"

definition match_stage :: "store \<Rightarrow> PlayRecord list" where
  "match_stage docs = filter matches_filter docs"

section \<open>Aggregation stages\<close>

text \<open>
  Modelled from the spec: the Store's aggregation operators are not part of the source
  file, which only names them. \<^verbatim>\<open>$group\<close> reads the records in insertion order, creates a
  group when a key is first met (so groups are in creation order), \<^verbatim>\<open>$first\<close> keeps the value
  of the record that created the group and \<^verbatim>\<open>$sum\<close> adds to it.
\<close>

fun accumulate :: "('d \<Rightarrow> 'a) \<Rightarrow> ('d \<Rightarrow> 'a \<Rightarrow> 'a) \<Rightarrow> 'k \<Rightarrow> 'd \<Rightarrow> ('k \<times> 'a) list \<Rightarrow> ('k \<times> 'a) list" where
  "accumulate init step k d [] = [(k, init d)]"
| "accumulate init step k d ((k', a) # gs) =
     (if k' = k then (k', step d a) # gs else (k', a) # accumulate init step k d gs)"

definition group_stage :: "('d \<Rightarrow> 'k) \<Rightarrow> ('d \<Rightarrow> 'a) \<Rightarrow> ('d \<Rightarrow> 'a \<Rightarrow> 'a) \<Rightarrow> 'd list \<Rightarrow> ('k \<times> 'a) list" where
  "group_stage key init step docs = foldl (\<lambda>gs d. accumulate init step (key d) d gs) [] docs"

text \<open>
  Modelled from the spec: \<^verbatim>\<open>$sort\<close> with direction \<^verbatim>\<open>-1\<close> is a stable descending sort, rows
  with equal keys keeping the order in which they arrive.
\<close>

definition sort_stage_desc :: "('r \<Rightarrow> 'b::linordered_ab_group_add) \<Rightarrow> 'r list \<Rightarrow> 'r list" where
  "sort_stage_desc key rows = sort_key (\<lambda>r. - key r) rows"

definition limit_stage :: "nat \<Rightarrow> 'r list \<Rightarrow> 'r list" where
  "limit_stage n rows = take n rows"

text \<open>\<^verbatim>\<open>$count\<close> emits one document holding the number of input rows, and none for no input.\<close>

definition count_stage :: "'r list \<Rightarrow> int list" where
  "count_stage rows = (if rows = [] then [] else [int (length rows)])"

subsection \<open>Derived fields\<close>

text \<open>
  \<^verbatim>\<open>$divide\<close> and \<^verbatim>\<open>$round\<close> are operators of the Store. \<^verbatim>\<open>$divide\<close> converts its integer
  operands to IEEE-754 binary64 and returns the double nearest to their quotient, ties
  going to the even significand; \<^verbatim>\<open>$round\<close> rounds the value of the double it is given to
  the number of decimal places, ties going to the even digit. A double is held as the
  rational it denotes: a significand of 53 bits times a power of two. The exponent is not
  bounded: the quotients of the pipelines, sums of milliseconds over 60000 or 3600000, lie
  far inside the range of binary64. The result of \<^verbatim>\<open>$round\<close> is held as the decimal itself,
  which stands for the double nearest to it.
\<close>

text \<open>The quotient of two integers rounded to the nearest integer, ties to even.\<close>

definition half_even_div :: "int \<Rightarrow> int \<Rightarrow> int" where
  "half_even_div a b =
     (if 2 * (a mod b) < b then a div b
      else if b < 2 * (a mod b) then a div b + 1
      else if even (a div b) then a div b else a div b + 1)"

text \<open>
  For positive \<open>a\<close> and \<open>b\<close>, \<open>scale_num a e / scale_den b e\<close> is \<open>a / b\<close> divided by \<open>2\<close> to
  the \<open>e\<close>; \<open>double_exponent a b\<close> is the \<open>e\<close> that brings it between \<open>2\<close> to the \<open>52\<close> and \<open>2\<close> to the
  \<open>53\<close>, and \<open>double_mantissa a b\<close> the integer nearest to it there.
\<close>

definition scale_num :: "int \<Rightarrow> int \<Rightarrow> int" where
  "scale_num a e = (if e < 0 then a * 2 ^ nat (- e) else a)"

definition scale_den :: "int \<Rightarrow> int \<Rightarrow> int" where
  "scale_den b e = (if e < 0 then b else b * 2 ^ nat e)"

definition double_exponent :: "int \<Rightarrow> int \<Rightarrow> int" where
  "double_exponent a b =
     (if scale_num a (bitlen a - bitlen b - 53) < scale_den b (bitlen a - bitlen b - 53) * 2 ^ 53
      then bitlen a - bitlen b - 53
      else bitlen a - bitlen b - 53 + 1)"

definition double_mantissa :: "int \<Rightarrow> int \<Rightarrow> int" where
  "double_mantissa a b =
     half_even_div (scale_num a (double_exponent a b)) (scale_den b (double_exponent a b))"

definition nearest_double :: "int \<Rightarrow> int \<Rightarrow> rat" where
  "nearest_double a b = of_int (double_mantissa a b) * 2 powi double_exponent a b"

text \<open>An integer as a double: itself below \<open>2\<close> to the \<open>53\<close>, rounded to 53 bits above.\<close>

definition int_to_double :: "int \<Rightarrow> int" where
  "int_to_double a =
     (if \<bar>a\<bar> < 2 ^ 53 then a
      else sgn a * half_even_div \<bar>a\<bar> (2 ^ nat (bitlen \<bar>a\<bar> - 53)) * 2 ^ nat (bitlen \<bar>a\<bar> - 53))"

text \<open>
  The divisors of the source are the positive literals 60000 and 3600000, so the error of
  the Store on a zero divisor is not reached.
\<close>

definition divide_stage :: "int \<Rightarrow> int \<Rightarrow> rat" where
  "divide_stage a b =
     (if a = 0 then 0
      else of_int (sgn a * sgn b) * nearest_double \<bar>int_to_double a\<bar> \<bar>int_to_double b\<bar>)"

definition round_half_even :: "rat \<Rightarrow> int" where
  "round_half_even x =
     (if x - of_int \<lfloor>x\<rfloor> < 1 / 2 then \<lfloor>x\<rfloor>
      else if 1 / 2 < x - of_int \<lfloor>x\<rfloor> then \<lfloor>x\<rfloor> + 1
      else if even \<lfloor>x\<rfloor> then \<lfloor>x\<rfloor> else \<lfloor>x\<rfloor> + 1)"

definition round_stage :: "rat \<Rightarrow> nat \<Rightarrow> rat" where
  "round_stage x places = of_int (round_half_even (x * 10 ^ places)) / 10 ^ places"

definition mins_of_ms :: "int \<Rightarrow> rat" where
  "mins_of_ms ms = round_stage (divide_stage ms 60000) 2"

definition hours_of_ms :: "int \<Rightarrow> rat" where
  "hours_of_ms ms = round_stage (divide_stage ms 3600000) 2"

section \<open>Scalar summaries\<close>

definition total_mins_pipeline :: "store \<Rightarrow> (unit \<times> rat) list" where
  "total_mins_pipeline docs =
     map (\<lambda>(k, total_ms_played). (k, mins_of_ms total_ms_played))
       (group_stage (\<lambda>d. ()) ms_played (\<lambda>d a. a + ms_played d) (match_stage docs))"

text \<open>
  \<^verbatim>\<open>const [r] = ...; return r.total_mins_played\<close>: with no result row \<^verbatim>\<open>r\<close> is undefined
  and reading its property raises a TypeError.
\<close>

definition getTotalMinsPlayed :: "store \<Rightarrow> js_error + rat" where
  "getTotalMinsPlayed docs =
     (case total_mins_pipeline docs of [] \<Rightarrow> Inl TypeError | (k, total_mins_played) # rest \<Rightarrow> Inr total_mins_played)"

definition unique_tracks_pipeline :: "store \<Rightarrow> int list" where
  "unique_tracks_pipeline docs =
     count_stage (group_stage spotify_track_uri (\<lambda>d. ()) (\<lambda>d a. a) (match_stage docs))"

definition getTotalUniqueTracksPlayed :: "store \<Rightarrow> js_error + int" where
  "getTotalUniqueTracksPlayed docs =
     (case unique_tracks_pipeline docs of [] \<Rightarrow> Inl TypeError | unique_tracks_played # rest \<Rightarrow> Inr unique_tracks_played)"

section \<open>Leaderboards\<close>

text \<open>
  A row is a pair of its \<^verbatim>\<open>_id\<close> and a record of the other fields; a row with one other
  field holds that field directly. Field names are prefixed with the pipeline they belong
  to where two pipelines use the same name. Every pipeline is written in the order of
  its stages in the source, the cursor's \<^verbatim>\<open>.limit(10)\<close> last.
\<close>

subsection \<open>Tracks\<close>

record track_time_group =
  total_ms_played :: int
  track_name :: "string option"
  artist_name :: "string option"
  album_name :: "string option"

record track_time_row =
  tt_track_name :: "string option"
  tt_artist_name :: "string option"
  total_mins_played :: rat
  total_hours :: rat

definition tracks_by_time_groups :: "store \<Rightarrow> (string option \<times> track_time_group) list" where
  "tracks_by_time_groups docs =
     group_stage spotify_track_uri
       (\<lambda>d. \<lparr>total_ms_played = ms_played d,
             track_name = master_metadata_track_name d,
             artist_name = master_metadata_album_artist_name d,
             album_name = master_metadata_album_album_name d\<rparr>)
       (\<lambda>d a. a\<lparr>total_ms_played := total_ms_played a + ms_played d\<rparr>)
       (match_stage docs)"

definition tracks_by_time_sorted :: "store \<Rightarrow> (string option \<times> track_time_group) list" where
  "tracks_by_time_sorted docs =
     sort_stage_desc (\<lambda>(k, g). total_ms_played g) (tracks_by_time_groups docs)"

definition tracks_by_time_project :: "string option \<times> track_time_group \<Rightarrow> string option \<times> track_time_row" where
  "tracks_by_time_project = (\<lambda>(k, g).
     (k, \<lparr>tt_track_name = track_name g,
          tt_artist_name = artist_name g,
          total_mins_played = mins_of_ms (total_ms_played g),
          total_hours = hours_of_ms (total_ms_played g)\<rparr>))"

definition getTopTracksByPlayTime :: "store \<Rightarrow> (string option \<times> track_time_row) list" where
  "getTopTracksByPlayTime docs =
     limit_stage 10 (map tracks_by_time_project (tracks_by_time_sorted docs))"

record track_count_group =
  tc_total_play_count :: int
  tc_track_name :: "string option"
  tc_artist_name :: "string option"

definition tracks_by_count_groups :: "store \<Rightarrow> (string option \<times> track_count_group) list" where
  "tracks_by_count_groups docs =
     group_stage spotify_track_uri
       (\<lambda>d. \<lparr>tc_total_play_count = 1,
             tc_track_name = master_metadata_track_name d,
             tc_artist_name = master_metadata_album_artist_name d\<rparr>)
       (\<lambda>d a. a\<lparr>tc_total_play_count := tc_total_play_count a + 1\<rparr>)
       (match_stage docs)"

definition getTopTracksByPlayCount :: "store \<Rightarrow> (string option \<times> track_count_group) list" where
  "getTopTracksByPlayCount docs =
     limit_stage 10 (sort_stage_desc (\<lambda>(k, g). tc_total_play_count g) (tracks_by_count_groups docs))"

subsection \<open>Albums\<close>

record album_group =
  al_total_play_time :: int
  total_track_plays_from_album_count :: int
  al_artist_name :: "string option"

record album_time_row =
  at_artist_name :: "string option"
  at_total_play_time_mins :: rat
  at_total_play_time_hours :: rat

definition albums_groups :: "store \<Rightarrow> (string option \<times> album_group) list" where
  "albums_groups docs =
     group_stage master_metadata_album_album_name
       (\<lambda>d. \<lparr>al_total_play_time = ms_played d,
             total_track_plays_from_album_count = 1,
             al_artist_name = master_metadata_album_artist_name d\<rparr>)
       (\<lambda>d a. a\<lparr>al_total_play_time := al_total_play_time a + ms_played d,
                 total_track_plays_from_album_count := total_track_plays_from_album_count a + 1\<rparr>)
       (match_stage docs)"

definition albums_by_time_project :: "string option \<times> album_group \<Rightarrow> string option \<times> album_time_row" where
  "albums_by_time_project = (\<lambda>(k, g).
     (k, \<lparr>at_artist_name = al_artist_name g,
          at_total_play_time_mins = mins_of_ms (al_total_play_time g),
          at_total_play_time_hours = hours_of_ms (al_total_play_time g)\<rparr>))"

definition albums_by_time_sorted :: "store \<Rightarrow> (string option \<times> album_time_row) list" where
  "albums_by_time_sorted docs =
     sort_stage_desc (\<lambda>(k, r). at_total_play_time_mins r) (map albums_by_time_project (albums_groups docs))"

definition getTopAlbumsByPlayTime :: "store \<Rightarrow> (string option \<times> album_time_row) list" where
  "getTopAlbumsByPlayTime docs = limit_stage 10 (albums_by_time_sorted docs)"

definition getTopAlbumsByPlayCount :: "store \<Rightarrow> (string option \<times> album_group) list" where
  "getTopAlbumsByPlayCount docs =
     limit_stage 10
       (sort_stage_desc (\<lambda>(k, g). total_track_plays_from_album_count g) (albums_groups docs))"

subsection \<open>Artists\<close>

text \<open>
  The \<^verbatim>\<open>$project\<close> of the artists-by-time pipeline also lists \<^verbatim>\<open>artist_name: 1\<close>, a field
  the groups do not have, so the rows carry the two derived fields only.
\<close>

record play_time_row =
  total_play_time_mins :: rat
  total_play_time_hours :: rat

definition play_time_project :: "'k \<times> int \<Rightarrow> 'k \<times> play_time_row" where
  "play_time_project = (\<lambda>(k, total_play_time).
     (k, \<lparr>total_play_time_mins = mins_of_ms total_play_time,
          total_play_time_hours = hours_of_ms total_play_time\<rparr>))"

definition artists_by_time_groups :: "store \<Rightarrow> (string option \<times> int) list" where
  "artists_by_time_groups docs =
     group_stage master_metadata_album_artist_name ms_played (\<lambda>d a. a + ms_played d)
       (match_stage docs)"

definition getTopArtistsByPlayTime :: "store \<Rightarrow> (string option \<times> play_time_row) list" where
  "getTopArtistsByPlayTime docs =
     limit_stage 10 (map play_time_project (sort_stage_desc snd (artists_by_time_groups docs)))"

definition artists_by_count_groups :: "store \<Rightarrow> (string option \<times> int) list" where
  "artists_by_count_groups docs =
     group_stage master_metadata_album_artist_name (\<lambda>d. 1) (\<lambda>d a. a + 1) (match_stage docs)"

definition getTopArtistsByPlayCount :: "store \<Rightarrow> (string option \<times> int) list" where
  "getTopArtistsByPlayCount docs =
     limit_stage 10 (sort_stage_desc snd (artists_by_count_groups docs))"

subsection \<open>Days\<close>

text \<open>
  \<^verbatim>\<open>$dateToString\<close> with format \<^verbatim>\<open>%Y-%m-%d\<close>, in UTC: the civil date of the day that holds
  the instant, from the day number since the epoch through the day of the 400-year era,
  the year of the era, the day of the year counted from March and the month counted from
  March. The year is printed with four digits; the filter leaves the year 2024 only.
\<close>

definition civil_from_mp :: "int \<Rightarrow> int \<Rightarrow> int \<Rightarrow> int \<times> int \<times> int" where
  "civil_from_mp y doy mp =
     (if 10 \<le> mp then y + 1 else y,
      if mp < 10 then mp + 3 else mp - 9,
      doy - (153 * mp + 2) div 5 + 1)"

definition civil_from_yoe :: "int \<Rightarrow> int \<Rightarrow> int \<Rightarrow> int \<times> int \<times> int" where
  "civil_from_yoe era doe yoe =
     civil_from_mp (yoe + era * 400)
       (doe - (365 * yoe + yoe div 4 - yoe div 100))
       ((5 * (doe - (365 * yoe + yoe div 4 - yoe div 100)) + 2) div 153)"

definition civil_from_doe :: "int \<Rightarrow> int \<Rightarrow> int \<times> int \<times> int" where
  "civil_from_doe era doe =
     civil_from_yoe era doe ((doe - doe div 1460 + doe div 36524 - doe div 146096) div 365)"

definition civil_from_days :: "int \<Rightarrow> int \<times> int \<times> int" where
  "civil_from_days z = civil_from_doe ((z + 719468) div 146097) ((z + 719468) mod 146097)"

definition digit_char :: "int \<Rightarrow> char" where
  "digit_char n = ''0123456789'' ! nat (n mod 10)"

definition pad2 :: "int \<Rightarrow> string" where
  "pad2 n = [digit_char (n div 10), digit_char n]"

definition pad4 :: "int \<Rightarrow> string" where
  "pad4 n = [digit_char (n div 1000), digit_char (n div 100), digit_char (n div 10), digit_char n]"

definition dateToString :: "int \<Rightarrow> string" where
  "dateToString t =
     (case civil_from_days (t div 86400000) of (y, m, d) \<Rightarrow> pad4 y @ ''-'' @ pad2 m @ ''-'' @ pad2 d)"

definition days_by_time_groups :: "store \<Rightarrow> (string \<times> int) list" where
  "days_by_time_groups docs =
     group_stage (\<lambda>d. dateToString (ts d)) ms_played (\<lambda>d a. a + ms_played d) (match_stage docs)"

definition getTopDaysByPlayTime :: "store \<Rightarrow> (string \<times> play_time_row) list" where
  "getTopDaysByPlayTime docs =
     limit_stage 10 (map play_time_project (sort_stage_desc snd (days_by_time_groups docs)))"

definition days_by_count_groups :: "store \<Rightarrow> (string \<times> int) list" where
  "days_by_count_groups docs =
     group_stage (\<lambda>d. dateToString (ts d)) (\<lambda>d. 1) (\<lambda>d a. a + 1) (match_stage docs)"

definition getTopDaysByPlayCount :: "store \<Rightarrow> (string \<times> int) list" where
  "getTopDaysByPlayCount docs =
     limit_stage 10 (map (\<lambda>(k, total_play_count). (k, total_play_count))
       (sort_stage_desc snd (days_by_count_groups docs)))"

section \<open>The top-level program\<close>

text \<open>
  The functions of the module, and the ones the module's top level awaits, in order. A
  rejected \<^verbatim>\<open>await\<close> ends the run there.
\<close>

datatype call =
    ImportPlays
  | GetTotalMinsPlayed
  | GetTotalUniqueTracksPlayed
  | GetTopTracksByPlayTime
  | GetTopArtistsByPlayTime
  | GetTopAlbumsByPlayTime
  | GetTopDaysByPlayTime
  | GetTopTracksByPlayCount
  | GetTopArtistsByPlayCount
  | GetTopAlbumsByPlayCount
  | GetTopDaysByPlayCount

definition program :: "store \<Rightarrow> call list \<times> (js_error + unit)" where
  "program docs =
     (case getTotalMinsPlayed docs of
        Inl e \<Rightarrow> ([GetTotalMinsPlayed], Inl e)
      | Inr mins \<Rightarrow>
         (case getTotalUniqueTracksPlayed docs of
            Inl e \<Rightarrow> ([GetTotalMinsPlayed, GetTotalUniqueTracksPlayed], Inl e)
          | Inr tracks \<Rightarrow>
             ([GetTotalMinsPlayed, GetTotalUniqueTracksPlayed,
               GetTopTracksByPlayTime, GetTopArtistsByPlayTime, GetTopAlbumsByPlayTime,
               GetTopDaysByPlayTime, GetTopTracksByPlayCount, GetTopArtistsByPlayCount,
               GetTopAlbumsByPlayCount, GetTopDaysByPlayCount], Inr ())))"

section \<open>The importer\<close>

text \<open>
  The directory is the list \<^verbatim>\<open>readdirSync\<close> returns; an entry has its name, whether
  \<^verbatim>\<open>lstatSync\<close> reports a directory, and what \<^verbatim>\<open>readFileSync\<close> returns (\<open>None\<close> when the
  read raises). \<^verbatim>\<open>JSON.parse\<close> is a parameter: it returns a value, or \<open>None\<close> when it
  raises a SyntaxError.
\<close>

datatype json =
    JNull
  | JBool bool
  | JNum rat
  | JStr string
  | JArr "json list"
  | JObj "(string \<times> json) list"

record dir_entry =
  name :: string
  is_directory :: bool
  contents :: "string option"

datatype log_line =
    SkippingInvalidFile string
  | ProcessingFile string
  | SkippingEmptyFile string
  | SkippingNoRecords string
  | InsertingRecords "json option"

definition str_endsWith :: "string \<Rightarrow> string \<Rightarrow> bool" where
  "str_endsWith s e \<longleftrightarrow> length e \<le> length s \<and> drop (length s - length e) s = e"

fun str_includes :: "string \<Rightarrow> string \<Rightarrow> bool" where
  "str_includes [] sub = (sub = [])"
| "str_includes (c # cs) sub = (take (length sub) (c # cs) = sub \<or> str_includes cs sub)"

text \<open>
  \<^verbatim>\<open>plays.length\<close>: a TypeError on \<^verbatim>\<open>null\<close>, undefined (\<open>None\<close>) on a number or a boolean,
  the property of that name on an object (the last one, if the text repeats the key).
\<close>

fun js_length :: "json \<Rightarrow> js_error + json option" where
  "js_length JNull = Inl TypeError"
| "js_length (JBool b) = Inr None"
| "js_length (JNum n) = Inr None"
| "js_length (JStr s) = Inr (Some (JNum (of_nat (length s))))"
| "js_length (JArr xs) = Inr (Some (JNum (of_nat (length xs))))"
| "js_length (JObj kvs) = Inr (map_of (rev kvs) ''length'')"

text \<open>
  The loop of \<^verbatim>\<open>importPlays\<close>, with the console log and the collection passed through.
  The call of \<^verbatim>\<open>insertMany\<close> is commented out in the source, so no branch changes the
  collection.
\<close>

fun importPlays_loop ::
  "(string \<Rightarrow> json option) \<Rightarrow> dir_entry list \<Rightarrow> log_line list \<Rightarrow> 'doc list
     \<Rightarrow> (js_error + unit) \<times> log_line list \<times> 'doc list" where
  "importPlays_loop parse [] logged db = (Inr (), logged, db)"
| "importPlays_loop parse (file # files) logged db =
     (if \<not> str_endsWith (name file) ''.json'' \<or> \<not> str_includes (name file) ''Audio''
         \<or> is_directory file
      then importPlays_loop parse files (logged @ [SkippingInvalidFile (name file)]) db
      else
        (case contents file of
           None \<Rightarrow> (Inl FsError, logged @ [ProcessingFile (name file)], db)
         | Some fileContents \<Rightarrow>
            if fileContents = []
            then importPlays_loop parse files
                   (logged @ [ProcessingFile (name file), SkippingEmptyFile (name file)]) db
            else
              (case parse fileContents of
                 None \<Rightarrow> (Inl SyntaxError, logged @ [ProcessingFile (name file)], db)
               | Some plays \<Rightarrow>
                  (case js_length plays of
                     Inl e \<Rightarrow> (Inl e, logged @ [ProcessingFile (name file)], db)
                   | Inr len \<Rightarrow>
                      if len = Some (JNum 0)
                      then importPlays_loop parse files
                             (logged @ [ProcessingFile (name file), SkippingNoRecords (name file)]) db
                      else importPlays_loop parse files
                             (logged @ [ProcessingFile (name file), InsertingRecords len]) db))))"

definition importPlays ::
  "(string \<Rightarrow> json option) \<Rightarrow> dir_entry list \<Rightarrow> 'doc list
     \<Rightarrow> (js_error + unit) \<times> log_line list \<times> 'doc list" where
  "importPlays parse files db = importPlays_loop parse files [] db"

section \<open>Notions of the specification\<close>

text \<open>Rounding half away from zero, as the specification words it.\<close>

definition round_half_away_from_zero :: "rat \<Rightarrow> int" where
  "round_half_away_from_zero x = (if x < 0 then - \<lfloor>- x + 1 / 2\<rfloor> else \<lfloor>x + 1 / 2\<rfloor>)"

text \<open>
  \<open>r\<close> is \<open>x\<close> rounded to two decimal places, a tie going to the even hundredth.
\<close>

definition rounds_half_even_2dp :: "rat \<Rightarrow> rat \<Rightarrow> bool" where
  "rounds_half_even_2dp x r \<longleftrightarrow>
     r * 100 = of_int \<lfloor>r * 100\<rfloor> \<and>
     \<bar>x * 100 - r * 100\<bar> \<le> 1 / 2 \<and>
     (\<bar>x * 100 - r * 100\<bar> = 1 / 2 \<longrightarrow> even \<lfloor>r * 100\<rfloor>)"

text \<open>
  Ties keep their order: the rows of \<open>ranked\<close> with any one value of the sort key are the
  first rows with that value in \<open>created\<close>, in the same order.
\<close>

definition ties_keep_order :: "('r \<Rightarrow> 'b) \<Rightarrow> 'r list \<Rightarrow> 'r list \<Rightarrow> bool" where
  "ties_keep_order key ranked created \<longleftrightarrow>
     (\<forall>v. prefix (filter (\<lambda>r. key r = v) ranked) (filter (\<lambda>r. key r = v) created))"

text \<open>The milliseconds played by the filtered records whose key is \<open>k\<close>.\<close>

definition group_ms :: "(PlayRecord \<Rightarrow> 'k) \<Rightarrow> 'k \<Rightarrow> store \<Rightarrow> int" where
  "group_ms key k docs = sum_list (map ms_played (filter (\<lambda>d. key d = k) (match_stage docs)))"

text \<open>
  The hundredths that rounding the double quotient of \<open>a\<close> by \<open>b\<close> to two places gives,
  computed on integers.
\<close>

definition double_hundredths :: "int \<Rightarrow> int \<Rightarrow> int" where
  "double_hundredths a b =
     (if double_exponent a b < 0
      then half_even_div (100 * double_mantissa a b) (2 ^ nat (- double_exponent a b))
      else 100 * double_mantissa a b * 2 ^ nat (double_exponent a b))"

section \<open>Sample data\<close>

text \<open>
  The three filtered events of the specification's example (track A twice, track B once),
  and further records for the edge cases below.
\<close>

definition play_a1 :: PlayRecord where
  "play_a1 = \<lparr>ts = 1719136631000, ms_played = 200000,
     master_metadata_track_name = Some ''Track A'',
     master_metadata_album_artist_name = Some ''Artist X'',
     master_metadata_album_album_name = Some ''Album P'',
     spotify_track_uri = Some ''spotify:track:A'', incognito_mode = False\<rparr>"

definition play_a2 :: PlayRecord where
  "play_a2 = play_a1\<lparr>ts := 1719223031000, ms_played := 100000\<rparr>"

definition play_b :: PlayRecord where
  "play_b = \<lparr>ts = 1719136931000, ms_played = 50000,
     master_metadata_track_name = Some ''Track B'',
     master_metadata_album_artist_name = Some ''Artist Y'',
     master_metadata_album_album_name = Some ''Album Q'',
     spotify_track_uri = Some ''spotify:track:B'', incognito_mode = False\<rparr>"

definition play_short :: PlayRecord where
  "play_short = play_b\<lparr>ms_played := 29999\<rparr>"

definition play_tie :: PlayRecord where
  "play_tie = play_b\<lparr>ms_played := 37500\<rparr>"

definition play_p :: PlayRecord where
  "play_p = play_a1\<lparr>ms_played := 30000\<rparr>"

definition play_q :: PlayRecord where
  "play_q = play_b\<lparr>ms_played := 30100\<rparr>"

text \<open>
  Directory entries, and what \<^verbatim>\<open>JSON.parse\<close> does on their contents: a batch of one
  record, an empty batch, and a text that is not JSON.
\<close>

definition parse_samples :: "string \<Rightarrow> json option" where
  "parse_samples s =
     (if s = ''[{}]'' then Some (JArr [JObj []])
      else if s = ''[]'' then Some (JArr [])
      else None)"

definition audio_ok :: dir_entry where
  "audio_ok = \<lparr>name = ''Streaming_History_Audio_2024.json'', is_directory = False,
     contents = Some ''[{}]''\<rparr>"

definition audio_bad :: dir_entry where
  "audio_bad = \<lparr>name = ''Streaming_History_Audio_2023.json'', is_directory = False,
     contents = Some ''[{''\<rparr>"

definition audio_empty :: dir_entry where
  "audio_empty = \<lparr>name = ''Streaming_History_Audio_2022.json'', is_directory = False,
     contents = Some []\<rparr>"

definition audio_no_records :: dir_entry where
  "audio_no_records = \<lparr>name = ''Streaming_History_Audio_2021.json'', is_directory = False,
     contents = Some ''[]''\<rparr>"

section \<open>Properties of the stages\<close>

lemmas sample_defs = play_a1_def play_a2_def play_b_def play_short_def play_tie_def play_p_def play_q_def
lemmas filter_defs = match_stage_def matches_filter_def range_start_def range_end_def excluded_track_uris_def

subsection \<open>Grouping\<close>

lemma group_stage_Nil: "group_stage key init step [] = []"
  by (simp add: group_stage_def)

lemma group_stage_snoc:
  "group_stage key init step (docs @ [d]) = accumulate init step (key d) d (group_stage key init step docs)"
  by (simp add: group_stage_def)

lemma accumulate_keys:
  "map fst (accumulate init step k d gs) =
     (case map_of gs k of None \<Rightarrow> map fst gs @ [k] | Some a \<Rightarrow> map fst gs)"
  by (induction gs) (auto split: option.splits)

lemma accumulate_map_of:
  "map_of (accumulate init step k d gs) =
     (map_of gs)(k \<mapsto> (case map_of gs k of None \<Rightarrow> init d | Some a \<Rightarrow> step d a))"
  by (induction gs) (auto split: option.splits)

lemma group_stage_keys:
  "distinct (map fst (group_stage key init step docs)) \<and>
   set (map fst (group_stage key init step docs)) = key ` set docs"
proof (induction docs rule: rev_induct)
  case Nil
  show ?case by (simp add: group_stage_Nil)
next
  case (snoc d docs)
  let ?gs = "group_stage key init step docs"
  show ?case
  proof (cases "map_of ?gs (key d)")
    case None
    then have "key d \<notin> fst ` set ?gs"
      by (simp add: map_of_eq_None_iff)
    with snoc None show ?thesis
      by (simp add: group_stage_snoc accumulate_keys)
  next
    case (Some a)
    then have "key d \<in> fst ` set ?gs"
      by (metis map_of_eq_None_iff option.distinct(1))
    with snoc Some show ?thesis
      by (auto simp: group_stage_snoc accumulate_keys)
  qed
qed

lemma group_stage_length:
  "length (group_stage key init step docs) = card (key ` set docs)"
proof -
  have "card (set (map fst (group_stage key init step docs))) = length (map fst (group_stage key init step docs))"
    using group_stage_keys [of key init step docs] by (intro distinct_card) simp
  then show ?thesis
    using group_stage_keys [of key init step docs] by simp
qed

lemma accumulate_sum:
  assumes "\<And>d. m (init d) = f d" and "\<And>d a. m (step d a) = m a + f d"
  shows "sum_list (map (\<lambda>g. m (snd g)) (accumulate init step k d gs)) =
         sum_list (map (\<lambda>g. m (snd g)) gs) + (f d :: int)"
  by (induction gs) (auto simp: assms)

lemma group_stage_sum:
  assumes "\<And>d. m (init d) = f d" and "\<And>d a. m (step d a) = m a + f d"
  shows "sum_list (map (\<lambda>g. m (snd g)) (group_stage key init step docs)) =
         (sum_list (map f docs) :: int)"
proof (induction docs rule: rev_induct)
  case Nil
  show ?case by (simp add: group_stage_Nil)
next
  case (snoc d docs)
  then show ?case
    by (simp add: group_stage_snoc accumulate_sum [where m = m and f = f, OF assms])
qed

lemma group_stage_member_sum:
  assumes "\<And>d. m (init d) = f d" and "\<And>d a. m (step d a) = m a + f d"
    and "(k, a) \<in> set (group_stage key init step docs)"
  shows "m a = (sum_list (map f (filter (\<lambda>d. key d = k) docs)) :: int)"
proof -
  have "map_of (group_stage key init step docs) k = Some a \<Longrightarrow> ?thesis"
  proof (induction docs arbitrary: a rule: rev_induct)
    case Nil
    then show ?case by (simp add: group_stage_Nil)
  next
    case (snoc d docs)
    let ?gs = "group_stage key init step docs"
    have keys: "fst ` set ?gs = key ` set docs"
      using group_stage_keys [of key init step docs] by simp
    show ?case
    proof (cases "k = key d")
      case False
      with snoc.prems have "map_of ?gs k = Some a"
        by (simp add: group_stage_snoc accumulate_map_of)
      with snoc.IH False show ?thesis by auto
    next
      case True
      show ?thesis
      proof (cases "map_of ?gs k")
        case None
        with snoc.prems True have a: "a = init d"
          by (simp add: group_stage_snoc accumulate_map_of)
        from None keys have "k \<notin> key ` set docs"
          by (simp add: map_of_eq_None_iff)
        then have "filter (\<lambda>x. key x = k) docs = []"
          by (auto simp: filter_empty_conv)
        with a True show ?thesis by (simp add: assms)
      next
        case (Some a0)
        with snoc.prems True have "a = step d a0"
          by (simp add: group_stage_snoc accumulate_map_of)
        with snoc.IH [OF Some] True show ?thesis by (simp add: assms)
      qed
    qed
  qed
  moreover have "map_of (group_stage key init step docs) k = Some a"
    using assms(3) group_stage_keys [of key init step docs] by simp
  ultimately show ?thesis .
qed

lemma sum_list_sort_key:
  "sum_list (map g (sort_key h xs)) = (sum_list (map g xs) :: int)"
proof -
  have "mset (map g (sort_key h xs)) = mset (map g xs)"
    by simp
  then show ?thesis by (metis sum_mset_sum_list)
qed


subsection \<open>Rounding\<close>

lemma round_half_even_divide:
  assumes "0 < b"
  shows "round_half_even (of_int a / of_int b) = half_even_div a b"
proof -
  have fl: "\<lfloor>(of_int a / of_int b :: rat)\<rfloor> = a div b"
    by (rule floor_divide_of_int_eq)
  have "(of_int a :: rat) = of_int (a div b) * of_int b + of_int (a mod b)"
    by (metis of_int_add of_int_mult div_mult_mod_eq)
  then have fr: "(of_int a / of_int b :: rat) - of_int (a div b) = of_int (a mod b) / of_int b"
    using assms by (simp add: field_simps)
  have lt: "(of_int (a mod b) / of_int b < (1 / 2 :: rat)) = (2 * (a mod b) < b)"
  proof -
    have "(of_int (a mod b) / of_int b < (1 / 2 :: rat)) = ((of_int (2 * (a mod b)) :: rat) < of_int b)"
      using assms by (simp add: field_simps)
    then show ?thesis by (simp only: of_int_less_iff)
  qed
  have gt: "((1 / 2 :: rat) < of_int (a mod b) / of_int b) = (b < 2 * (a mod b))"
  proof -
    have "((1 / 2 :: rat) < of_int (a mod b) / of_int b) = ((of_int b :: rat) < of_int (2 * (a mod b)))"
      using assms by (simp add: field_simps)
    then show ?thesis by (simp only: of_int_less_iff)
  qed
  show ?thesis
    unfolding round_half_even_def half_even_div_def fl fr lt gt ..
qed

lemma round_half_even_near: "\<bar>x - of_int (round_half_even x)\<bar> \<le> 1 / 2"
proof -
  have "of_int \<lfloor>x\<rfloor> \<le> x" "x < of_int \<lfloor>x\<rfloor> + 1"
    by linarith+
  then show ?thesis
    unfolding round_half_even_def by (auto simp: abs_le_iff)
qed

lemma round_half_even_tie:
  assumes "\<bar>x - of_int (round_half_even x)\<bar> = 1 / 2"
  shows "even (round_half_even x)"
proof -
  have fl: "of_int \<lfloor>x\<rfloor> \<le> x" "x < of_int \<lfloor>x\<rfloor> + 1"
    by linarith+
  show ?thesis
  proof (cases "x - of_int \<lfloor>x\<rfloor> < 1 / 2")
    case True
    then have "round_half_even x = \<lfloor>x\<rfloor>" by (simp add: round_half_even_def)
    with assms True fl show ?thesis by (simp add: abs_if split: if_splits)
  next
    case False
    show ?thesis
    proof (cases "1 / 2 < x - of_int \<lfloor>x\<rfloor>")
      case True
      then have "round_half_even x = \<lfloor>x\<rfloor> + 1" using False by (simp add: round_half_even_def)
      with assms True fl show ?thesis by (simp add: abs_if split: if_splits)
    next
      case F2: False
      with False show ?thesis by (simp add: round_half_even_def)
    qed
  qed
qed

lemma round_stage_half_even: "rounds_half_even_2dp x (round_stage x 2)"
proof -
  let ?n = "round_half_even (x * 100)"
  have r: "round_stage x 2 * 100 = of_int ?n"
    by (simp add: round_stage_def)
  have "\<bar>x * 100 - of_int ?n\<bar> \<le> 1 / 2"
    by (rule round_half_even_near)
  moreover have "\<bar>x * 100 - of_int ?n\<bar> = 1 / 2 \<longrightarrow> even ?n"
    using round_half_even_tie by blast
  ultimately show ?thesis
    unfolding rounds_half_even_2dp_def r by simp
qed

lemma round_half_even_of_int: "round_half_even (of_int n) = n"
  by (simp add: round_half_even_def)

lemma scale_den_pos: "0 < b \<Longrightarrow> 0 < scale_den b e"
  by (simp add: scale_den_def)

lemma scale_quotient:
  assumes "0 < b"
  shows "(of_int (scale_num a e) :: rat) / of_int (scale_den b e) = of_int a / of_int b * 2 powi (- e)"
proof (cases "e < 0")
  case True
  then have "(2 :: rat) powi (- e) = 2 ^ nat (- e)"
    by (simp add: power_int_def)
  with True show ?thesis
    by (simp add: scale_num_def scale_den_def)
next
  case False
  then have pw: "(2 :: rat) powi (- e) = inverse (2 ^ nat e)"
    by (simp add: power_int_def power_one_over inverse_eq_divide)
  have "(of_int (scale_num a e) :: rat) / of_int (scale_den b e) = of_int a / (of_int b * 2 ^ nat e)"
    using False by (simp add: scale_num_def scale_den_def)
  also have "\<dots> = of_int a / of_int b * inverse (2 ^ nat e)"
    by (simp add: divide_inverse mult.assoc)
  finally show ?thesis
    by (simp only: pw)
qed

lemma mantissa_near:
  assumes "0 < b"
  shows "\<bar>of_int a / of_int b * 2 powi (- double_exponent a b) - of_int (double_mantissa a b)\<bar> \<le> (1 / 2 :: rat)"
proof -
  let ?e = "double_exponent a b"
  have "double_mantissa a b = round_half_even (of_int (scale_num a ?e) / of_int (scale_den b ?e))"
    unfolding double_mantissa_def
    by (rule round_half_even_divide [symmetric]) (rule scale_den_pos [OF assms])
  then show ?thesis
    using round_half_even_near [of "of_int a / of_int b * 2 powi (- ?e)"]
    by (simp add: scale_quotient [OF assms])
qed

lemma bitlen_powi_bounds:
  assumes "0 < x"
  shows "(2 :: rat) powi (bitlen x - 1) \<le> of_int x" and "(of_int x :: rat) \<le> 2 powi bitlen x"
proof -
  from bitlen_bounds [OF assms]
  have lo: "2 ^ nat (bitlen x - 1) \<le> x" and hi: "x < 2 ^ nat (bitlen x)"
    by simp_all
  have pos: "1 \<le> bitlen x"
    using assms by (metis bitlen_eq_zero_iff bitlen_nonneg not_le int_one_le_iff_zero_less order_le_less)
  have "(of_int (2 ^ nat (bitlen x - 1)) :: rat) \<le> of_int x"
    using lo by (simp only: of_int_le_iff)
  with pos show "(2 :: rat) powi (bitlen x - 1) \<le> of_int x"
    by (simp add: power_int_def)
  have "(of_int x :: rat) \<le> of_int (2 ^ nat (bitlen x))"
    using hi by (simp only: of_int_le_iff)
  with pos show "(of_int x :: rat) \<le> 2 powi bitlen x"
    by (simp add: power_int_def)
qed

lemma exponent_lower:
  assumes "0 < a" and "0 < b"
  shows "(2 :: rat) ^ 52 \<le> of_int a / of_int b * 2 powi (- double_exponent a b)"
proof -
  let ?e0 = "bitlen a - bitlen b - 53"
  let ?q = "(of_int a / of_int b :: rat)"
  have qpos: "0 < ?q"
    using assms by simp
  have "(2 :: rat) powi (bitlen a - 1) / 2 powi bitlen b \<le> ?q"
    using bitlen_powi_bounds [OF assms(1)] bitlen_powi_bounds [OF assms(2)] assms
    by (intro frac_le) simp_all
  then have "(2 :: rat) powi (bitlen a - 1 - bitlen b) \<le> ?q"
    by (simp add: power_int_diff)
  then have "(2 :: rat) powi (bitlen a - 1 - bitlen b) * 2 powi (- ?e0) \<le> ?q * 2 powi (- ?e0)"
    by (intro mult_right_mono) simp_all
  moreover have "(2 :: rat) powi (bitlen a - 1 - bitlen b) * 2 powi (- ?e0) = 2 powi 52"
    by (simp add: power_int_add [symmetric])
  ultimately have base: "(2 :: rat) ^ 52 \<le> ?q * 2 powi (- ?e0)"
    by simp
  show ?thesis
  proof (cases "scale_num a ?e0 < scale_den b ?e0 * 2 ^ 53")
    case True
    with base show ?thesis
      by (simp add: double_exponent_def)
  next
    case False
    then have "(of_int (scale_den b ?e0 * 2 ^ 53) :: rat) \<le> of_int (scale_num a ?e0)"
      by (simp only: of_int_le_iff)
    then have "(2 :: rat) ^ 53 \<le> of_int (scale_num a ?e0) / of_int (scale_den b ?e0)"
      using scale_den_pos [OF assms(2), of ?e0] by (simp add: field_simps)
    then have big: "(2 :: rat) ^ 53 \<le> ?q * 2 powi (- ?e0)"
      by (simp only: scale_quotient [OF assms(2)])
    define x where "x = ?q * 2 powi (- ?e0)"
    have "(2 :: rat) powi (- ?e0 - 1) = 2 powi (- ?e0) / 2 powi 1"
      by (rule power_int_diff) simp
    moreover have "- (?e0 + 1) = - ?e0 - 1"
      by simp
    ultimately have "(2 :: rat) powi (- (?e0 + 1)) = 2 powi (- ?e0) / 2"
      by (simp only: power_int_1_right)
    then have "?q * 2 powi (- (?e0 + 1)) = x / 2"
      by (simp only: x_def times_divide_eq_right)
    moreover have "(2 :: rat) ^ 52 \<le> x / 2"
    proof -
      from big have "(2 :: rat) ^ 53 \<le> x"
        by (simp only: x_def)
      then show ?thesis
        by simp
    qed
    ultimately have "(2 :: rat) ^ 52 \<le> ?q * 2 powi (- (?e0 + 1))"
      by (simp only:)
    with False show ?thesis
      by (simp add: double_exponent_def)
  qed
qed

lemma bitlen_powi_strict:
  assumes "0 < x"
  shows "(of_int x :: rat) < 2 powi bitlen x"
proof -
  from bitlen_bounds [OF assms] have hi: "x < 2 ^ nat (bitlen x)"
    by simp
  have "(of_int x :: rat) < of_int (2 ^ nat (bitlen x))"
    using hi by (simp only: of_int_less_iff)
  then show ?thesis
    using bitlen_nonneg [of x] by (simp add: power_int_def)
qed

lemma exponent_upper:
  assumes "0 < a" and "0 < b"
  shows "of_int a / of_int b * 2 powi (- double_exponent a b) < (2 :: rat) ^ 53"
proof -
  let ?e0 = "bitlen a - bitlen b - 53"
  let ?q = "(of_int a / of_int b :: rat)"
  show ?thesis
  proof (cases "scale_num a ?e0 < scale_den b ?e0 * 2 ^ 53")
    case True
    then have "(of_int (scale_num a ?e0) :: rat) < of_int (scale_den b ?e0 * 2 ^ 53)"
      by (simp only: of_int_less_iff)
    then have "(of_int (scale_num a ?e0) :: rat) / of_int (scale_den b ?e0) < 2 ^ 53"
      using scale_den_pos [OF assms(2), of ?e0] by (simp add: field_simps)
    then have "?q * 2 powi (- ?e0) < 2 ^ 53"
      by (simp only: scale_quotient [OF assms(2)])
    with True show ?thesis
      by (simp add: double_exponent_def)
  next
    case False
    have bpos: "(0 :: rat) < 2 powi (bitlen b - 1)"
      by simp
    have "?q < 2 powi bitlen a / 2 powi (bitlen b - 1)"
      using bitlen_powi_strict [OF assms(1)] bitlen_powi_bounds(1) [OF assms(2)] assms bpos
      by (intro frac_less) simp_all
    then have "?q < 2 powi (bitlen a - (bitlen b - 1))"
      by (simp only: power_int_diff [of "2 :: rat", simplified])
    then have "?q * 2 powi (- (?e0 + 1)) < 2 powi (bitlen a - (bitlen b - 1)) * 2 powi (- (?e0 + 1))"
      by (intro mult_strict_right_mono) simp_all
    moreover have "(2 :: rat) powi (bitlen a - (bitlen b - 1)) * 2 powi (- (?e0 + 1)) = 2 powi 53"
      by (simp add: power_int_add [symmetric])
    ultimately have "?q * 2 powi (- (?e0 + 1)) < 2 ^ 53"
      by simp
    with False show ?thesis
      by (simp add: double_exponent_def)
  qed
qed

lemma double_mantissa_range:
  assumes "0 < a" and "0 < b"
  shows "2 ^ 52 \<le> double_mantissa a b \<and> double_mantissa a b \<le> 2 ^ 53"
proof -
  define s :: rat where "s = of_int a / of_int b * 2 powi (- double_exponent a b)"
  define m where "m = double_mantissa a b"
  have near: "\<bar>s - of_int m\<bar> \<le> 1 / 2"
    unfolding s_def m_def by (rule mantissa_near [OF assms(2)])
  have lo: "2 ^ 52 \<le> s" and hi: "s < 2 ^ 53"
    unfolding s_def by (rule exponent_lower [OF assms], rule exponent_upper [OF assms])
  from near have b: "s - 1 / 2 \<le> of_int m" "of_int m \<le> s + 1 / 2"
    by linarith+
  have "(of_int (2 ^ 52 - 1) :: rat) = 2 ^ 52 - 1" "(of_int (2 ^ 53 + 1) :: rat) = 2 ^ 53 + 1"
    by simp_all
  with b lo hi have "(of_int (2 ^ 52 - 1) :: rat) < of_int m" "(of_int m :: rat) < of_int (2 ^ 53 + 1)"
    by linarith+
  then have "2 ^ 52 - 1 < m" "m < 2 ^ 53 + 1"
    by (simp_all only: of_int_less_iff)
  then show ?thesis
    unfolding m_def by simp
qed



lemma round_stage_divide_compute:
  assumes "0 < a" and "a < 2 ^ 53" and "0 < b" and "b < 2 ^ 53"
  shows "round_stage (divide_stage a b) 2 = of_int (double_hundredths a b) / 100"
proof -
  let ?e = "double_exponent a b" and ?m = "double_mantissa a b"
  have d: "divide_stage a b = of_int ?m * 2 powi ?e"
    using assms by (simp add: divide_stage_def int_to_double_def nearest_double_def)
  have "round_half_even (of_int ?m * 2 powi ?e * 100) = double_hundredths a b"
  proof (cases "?e < 0")
    case True
    then have "(of_int ?m * 2 powi ?e * 100 :: rat) = of_int (100 * ?m) / of_int (2 ^ nat (- ?e))"
      by (simp add: power_int_def field_simps)
    moreover have "round_half_even (of_int (100 * ?m) / of_int (2 ^ nat (- ?e))) =
        half_even_div (100 * ?m) (2 ^ nat (- ?e))"
      by (rule round_half_even_divide) simp
    ultimately show ?thesis
      using True by (simp only: double_hundredths_def if_True)
  next
    case False
    then have "(of_int ?m * 2 powi ?e * 100 :: rat) = of_int (100 * ?m * 2 ^ nat ?e)"
      by (simp add: power_int_def)
    then show ?thesis
      using False by (simp only: round_half_even_of_int double_hundredths_def if_False)
  qed
  then show ?thesis
    by (simp add: round_stage_def d)
qed

lemma mins_of_ms_compute:
  "0 < ms \<Longrightarrow> ms < 2 ^ 53 \<Longrightarrow> mins_of_ms ms = of_int (double_hundredths ms 60000) / 100"
  unfolding mins_of_ms_def by (rule round_stage_divide_compute) simp_all

lemma hours_of_ms_compute:
  "0 < ms \<Longrightarrow> ms < 2 ^ 53 \<Longrightarrow> hours_of_ms ms = of_int (double_hundredths ms 3600000) / 100"
  unfolding hours_of_ms_def by (rule round_stage_divide_compute) simp_all

lemmas double_defs = double_hundredths_def double_mantissa_def double_exponent_def
  scale_num_def scale_den_def compute_bitlen half_even_div_def

lemma sample_minutes:
  "mins_of_ms 350000 = 583 / 100"
  "mins_of_ms 300000 = 5"
  "mins_of_ms 250000 = 417 / 100"
  "mins_of_ms 100000 = 167 / 100"
  "mins_of_ms 50000 = 83 / 100"
  "mins_of_ms 37500 = 31 / 50"
  "mins_of_ms 30100 = 1 / 2"
  "mins_of_ms 30000 = 1 / 2"
  by (simp_all add: mins_of_ms_compute double_defs)

lemma sample_hours:
  "hours_of_ms 300000 = 2 / 25"
  "hours_of_ms 250000 = 7 / 100"
  "hours_of_ms 100000 = 3 / 100"
  "hours_of_ms 50000 = 1 / 100"
  "hours_of_ms 37500 = 1 / 100"
  "hours_of_ms 30100 = 1 / 100"
  "hours_of_ms 30000 = 1 / 100"
  by (simp_all add: hours_of_ms_compute double_defs)

text \<open>
  Where the exact quotient lies halfway between two hundredths and is not a double, the
  double next to it decides: 30300 ms, exactly 0.505 minutes, is a double above 0.505, and
  36900 ms, exactly 0.615 minutes, a double below 0.615.
\<close>

lemma double_rounding_examples:
  "mins_of_ms 30300 = 51 / 100"
  "mins_of_ms 36900 = 61 / 100"
  "(30300 / 60000 :: rat) < divide_stage 30300 60000"
  "divide_stage 36900 60000 < (36900 / 60000 :: rat)"
  by (simp_all add: mins_of_ms_compute double_defs divide_stage_def int_to_double_def nearest_double_def)

subsection \<open>Filtering\<close>

lemma match_stage_drop:
  "\<not> matches_filter e \<Longrightarrow> match_stage (xs @ e # ys) = match_stage (xs @ ys)"
  by (simp add: match_stage_def)



lemma group_stage_unit:
  "group_stage (\<lambda>d. ()) ms_played (\<lambda>d a. a + ms_played d) docs =
     (if docs = [] then [] else [((), sum_list (map ms_played docs))])"
proof (induction docs rule: rev_induct)
  case Nil
  show ?case by (simp add: group_stage_Nil)
next
  case (snoc d docs)
  then show ?case by (simp add: group_stage_snoc)
qed


subsection \<open>Sorting, limiting and the rows of the leaderboards\<close>

lemma limit_stage_length: "length (limit_stage 10 rows) \<le> 10"
  by (simp add: limit_stage_def)

lemma limit_stage_map: "limit_stage n (map f rows) = map f (take n rows)"
  by (simp add: limit_stage_def take_map)

lemma sort_stage_desc_stable:
  "filter (\<lambda>r. key r = v) (sort_stage_desc key rows) = filter (\<lambda>r. key r = v) rows"
proof -
  have "filter (\<lambda>r. - key r = - v) (sort_key (\<lambda>r. - key r) rows) = filter (\<lambda>r. - key r = - v) rows"
    by (rule sort_key_stable)
  then show ?thesis
    by (simp add: sort_stage_desc_def)
qed

lemma filter_take_prefix: "prefix (filter P (take n xs)) (filter P xs)"
proof -
  have "filter P xs = filter P (take n xs) @ filter P (drop n xs)"
    by (metis append_take_drop_id filter_append)
  then show ?thesis
    by (metis prefixI)
qed

lemma ties_keep_order_limit_sort:
  "ties_keep_order key (take n (sort_stage_desc key rows)) rows"
  unfolding ties_keep_order_def
  by (metis filter_take_prefix sort_stage_desc_stable)

lemma sort_stage_desc_sorted:
  "sorted_wrt (\<lambda>r s. key s \<le> key r) (sort_stage_desc key rows)"
proof -
  have "sorted (map (\<lambda>r. - key r) (sort_key (\<lambda>r. - key r) rows))"
    by (rule sorted_sort_key)
  then show ?thesis
    by (simp add: sort_stage_desc_def sorted_map)
qed

lemmas pipeline_defs =
  getTotalMinsPlayed_def total_mins_pipeline_def
  getTotalUniqueTracksPlayed_def unique_tracks_pipeline_def count_stage_def
  getTopTracksByPlayTime_def tracks_by_time_sorted_def tracks_by_time_groups_def tracks_by_time_project_def
  getTopTracksByPlayCount_def tracks_by_count_groups_def
  getTopAlbumsByPlayTime_def albums_by_time_sorted_def albums_groups_def albums_by_time_project_def
  getTopAlbumsByPlayCount_def
  getTopArtistsByPlayTime_def artists_by_time_groups_def play_time_project_def
  getTopArtistsByPlayCount_def artists_by_count_groups_def
  getTopDaysByPlayTime_def days_by_time_groups_def
  getTopDaysByPlayCount_def days_by_count_groups_def
  group_stage_def sort_stage_desc_def limit_stage_def

lemmas date_defs =
  dateToString_def civil_from_days_def civil_from_doe_def civil_from_yoe_def civil_from_mp_def
  pad2_def pad4_def digit_char_def

lemma in_limit_sort:
  "r \<in> set (limit_stage n (sort_stage_desc key rows)) \<Longrightarrow> r \<in> set rows"
  by (auto simp: limit_stage_def sort_stage_desc_def dest: in_set_takeD)

lemma in_limit_map_sort:
  "r \<in> set (limit_stage n (map f (sort_stage_desc key rows))) \<Longrightarrow> r \<in> f ` set rows"
  by (auto simp: limit_stage_def sort_stage_desc_def dest!: in_set_takeD)

lemma mins_of_ms_half_even: "rounds_half_even_2dp (divide_stage ms 60000) (mins_of_ms ms)"
  unfolding mins_of_ms_def by (rule round_stage_half_even)

lemma hours_of_ms_half_even: "rounds_half_even_2dp (divide_stage ms 3600000) (hours_of_ms ms)"
  unfolding hours_of_ms_def by (rule round_stage_half_even)

lemma tracks_time_row:
  assumes "(k, r) \<in> set (getTopTracksByPlayTime docs)"
  shows "total_mins_played r = mins_of_ms (group_ms spotify_track_uri k docs)
       \<and> total_hours r = hours_of_ms (group_ms spotify_track_uri k docs)"
proof -
  from assms obtain g where g: "(k, g) \<in> set (tracks_by_time_groups docs)"
    and r: "(k, r) = tracks_by_time_project (k, g)"
    unfolding getTopTracksByPlayTime_def tracks_by_time_sorted_def
    by (auto dest!: in_limit_map_sort simp: tracks_by_time_project_def)
  have "total_ms_played g = group_ms spotify_track_uri k docs"
    unfolding group_ms_def
    by (rule group_stage_member_sum [OF _ _ g [unfolded tracks_by_time_groups_def]]) simp_all
  with r show ?thesis
    by (simp add: tracks_by_time_project_def)
qed

lemma albums_time_row:
  assumes "(k, r) \<in> set (getTopAlbumsByPlayTime docs)"
  shows "at_total_play_time_mins r = mins_of_ms (group_ms master_metadata_album_album_name k docs)
       \<and> at_total_play_time_hours r = hours_of_ms (group_ms master_metadata_album_album_name k docs)"
proof -
  from assms have "(k, r) \<in> set (map albums_by_time_project (albums_groups docs))"
    unfolding getTopAlbumsByPlayTime_def albums_by_time_sorted_def
    by (rule in_limit_sort)
  then obtain g where g: "(k, g) \<in> set (albums_groups docs)"
    and r: "(k, r) = albums_by_time_project (k, g)"
    by (auto simp: albums_by_time_project_def)
  have "al_total_play_time g = group_ms master_metadata_album_album_name k docs"
    unfolding group_ms_def
    by (rule group_stage_member_sum [OF _ _ g [unfolded albums_groups_def]]) simp_all
  with r show ?thesis
    by (simp add: albums_by_time_project_def)
qed

lemma play_time_row:
  assumes "(k, r) \<in> set (limit_stage 10 (map play_time_project (sort_stage_desc snd
             (group_stage key ms_played (\<lambda>d a. a + ms_played d) (match_stage docs)))))"
  shows "total_play_time_mins r = mins_of_ms (group_ms key k docs)
       \<and> total_play_time_hours r = hours_of_ms (group_ms key k docs)"
proof -
  from assms obtain g where g: "(k, g) \<in> set (group_stage key ms_played (\<lambda>d a. a + ms_played d) (match_stage docs))"
    and r: "(k, r) = play_time_project (k, g)"
    by (auto dest!: in_limit_map_sort simp: play_time_project_def)
  have "(\<lambda>x. x) g = group_ms key k docs"
    unfolding group_ms_def
    by (rule group_stage_member_sum [OF _ _ g]) simp_all
  with r show ?thesis
    by (simp add: play_time_project_def)
qed

lemma top_tracks_tie:
  "getTopTracksByPlayTime [play_tie] =
     [(Some ''spotify:track:B'',
       \<lparr>tt_track_name = Some ''Track B'', tt_artist_name = Some ''Artist Y'',
        total_mins_played = 31 / 50, total_hours = 1 / 100\<rparr>)]"
  by (simp add: pipeline_defs sample_defs filter_defs sample_minutes sample_hours)

lemma sorted_wrt_limit: "sorted_wrt R rows \<Longrightarrow> sorted_wrt R (limit_stage n rows)"
  by (simp add: limit_stage_def sorted_wrt_take)

lemma top_albums_p_q:
  "getTopAlbumsByPlayTime [play_p, play_q] =
     [(Some ''Album P'',
       \<lparr>at_artist_name = Some ''Artist X'', at_total_play_time_mins = 1 / 2, at_total_play_time_hours = 1 / 100\<rparr>),
      (Some ''Album Q'',
       \<lparr>at_artist_name = Some ''Artist Y'', at_total_play_time_mins = 1 / 2, at_total_play_time_hours = 1 / 100\<rparr>)]"
  by (simp add: pipeline_defs sample_defs filter_defs sample_minutes sample_hours)

lemma top_albums_descending_minutes:
  "sorted_wrt (\<lambda>(k, r) (k', r'). at_total_play_time_mins r' \<le> at_total_play_time_mins r)
     (getTopAlbumsByPlayTime docs)"
proof -
  have "sorted_wrt (\<lambda>r s. (\<lambda>(k, r). at_total_play_time_mins r) s \<le> (\<lambda>(k, r). at_total_play_time_mins r) r)
      (getTopAlbumsByPlayTime docs)"
    unfolding getTopAlbumsByPlayTime_def albums_by_time_sorted_def
    by (intro sorted_wrt_limit sort_stage_desc_sorted)
  then show ?thesis
    by (simp add: case_prod_unfold)
qed

subsection \<open>The importer and the program\<close>

lemmas import_sample_defs =
  parse_samples_def audio_ok_def audio_bad_def audio_empty_def audio_no_records_def

lemma importPlays_loop_store:
  "snd (snd (importPlays_loop parse files logged db)) = db"
  by (induction parse files logged db rule: importPlays_loop.induct)
     (auto split: option.splits sum.splits)

lemma importPlays_loop_append:
  "importPlays_loop parse (pre @ files) logged db =
     (case importPlays_loop parse pre logged db of
        (Inl e, logged', db') \<Rightarrow> (Inl e, logged', db')
      | (Inr u, logged', db') \<Rightarrow> importPlays_loop parse files logged' db')"
  by (induction parse pre logged db rule: importPlays_loop.induct)
     (simp_all split: option.splits sum.splits)

lemma program_calls: "ImportPlays \<notin> set (fst (program docs))"
  by (simp add: program_def split: sum.splits)

lemma name_checks_ok:
  "str_endsWith ''Streaming_History_Audio_2024.json'' ''.json''"
  "str_includes ''Streaming_History_Audio_2024.json'' ''Audio''"
  "str_endsWith ''Streaming_History_Audio_2023.json'' ''.json''"
  "str_includes ''Streaming_History_Audio_2023.json'' ''Audio''"
  "str_endsWith ''Streaming_History_Audio_2022.json'' ''.json''"
  "str_includes ''Streaming_History_Audio_2022.json'' ''Audio''"
  "str_endsWith ''Streaming_History_Audio_2021.json'' ''.json''"
  "str_includes ''Streaming_History_Audio_2021.json'' ''Audio''"
  "\<not> str_includes ''not-audio.json'' ''Audio''"
  by (simp_all add: str_endsWith_def)

subsection \<open>The examples of the specification\<close>

text \<open>
  Track A played for 200000 ms and 100000 ms and track B for 50000 ms: A is ranked above
  B by time (5 minutes against 0.83) and by count (2 against 1). A batch file holding an
  empty array, an empty file and a file without the marker in its name are skipped, and
  nothing is raised.
\<close>

lemma sample_dates:
  "dateToString 1719136631000 = ''2024-06-23''"
  "dateToString 1719223031000 = ''2024-06-24''"
  "dateToString 1719136931000 = ''2024-06-23''"
  "dateToString 1704067200000 = ''2024-01-01''"
  "dateToString 1735689599999 = ''2024-12-31''"
  by (simp_all add: date_defs)

lemma spec_example_top_tracks:
  "getTopTracksByPlayTime [play_a1, play_a2, play_b] =
     [(Some ''spotify:track:A'',
       \<lparr>tt_track_name = Some ''Track A'', tt_artist_name = Some ''Artist X'',
        total_mins_played = 5, total_hours = 2 / 25\<rparr>),
      (Some ''spotify:track:B'',
       \<lparr>tt_track_name = Some ''Track B'', tt_artist_name = Some ''Artist Y'',
        total_mins_played = 83 / 100, total_hours = 1 / 100\<rparr>)]"
  "getTopTracksByPlayCount [play_a1, play_a2, play_b] =
     [(Some ''spotify:track:A'',
       \<lparr>tc_total_play_count = 2, tc_track_name = Some ''Track A'', tc_artist_name = Some ''Artist X''\<rparr>),
      (Some ''spotify:track:B'',
       \<lparr>tc_total_play_count = 1, tc_track_name = Some ''Track B'', tc_artist_name = Some ''Artist Y''\<rparr>)]"
  by (simp_all add: pipeline_defs sample_defs filter_defs sample_minutes sample_hours)

lemma spec_example_top_days:
  "getTopDaysByPlayTime [play_a1, play_a2, play_b] =
     [(''2024-06-23'', \<lparr>total_play_time_mins = 417 / 100, total_play_time_hours = 7 / 100\<rparr>),
      (''2024-06-24'', \<lparr>total_play_time_mins = 167 / 100, total_play_time_hours = 3 / 100\<rparr>)]"
  "getTopDaysByPlayCount [play_a1, play_a2, play_b] = [(''2024-06-23'', 2), (''2024-06-24'', 1)]"
  by (simp_all add: pipeline_defs sample_defs filter_defs sample_dates sample_minutes sample_hours)

lemma spec_example_import:
  "importPlays parse_samples
     [audio_empty, audio_no_records,
      \<lparr>name = ''not-audio.json'', is_directory = False, contents = Some ''[{}]''\<rparr>] ([] :: json list) =
     (Inr (),
      [ProcessingFile ''Streaming_History_Audio_2022.json'', SkippingEmptyFile ''Streaming_History_Audio_2022.json'',
       ProcessingFile ''Streaming_History_Audio_2021.json'', SkippingNoRecords ''Streaming_History_Audio_2021.json'',
       SkippingInvalidFile ''not-audio.json''], [])"
  by (simp add: importPlays_def import_sample_defs name_checks_ok)

section \<open>The claims\<close>

text \<open>
  C1, as amended. For an empty filtered set each of the eight leaderboards returns an
  empty list of rows, and the aggregations behind \<^verbatim>\<open>getTotalMinsPlayed\<close> and
  \<^verbatim>\<open>getTotalUniqueTracksPlayed\<close> yield no result row. The claim as stated fails: on the
  empty store both scalar summaries end in a TypeError instead of returning, and the
  program run ends at its first call.
\<close>

theorem empty_filtered_set_reports:
  assumes "match_stage docs = []"
  shows "getTopTracksByPlayTime docs = []
   \<and> getTopTracksByPlayCount docs = []
   \<and> getTopAlbumsByPlayTime docs = []
   \<and> getTopAlbumsByPlayCount docs = []
   \<and> getTopArtistsByPlayTime docs = []
   \<and> getTopArtistsByPlayCount docs = []
   \<and> getTopDaysByPlayTime docs = []
   \<and> getTopDaysByPlayCount docs = []
   \<and> total_mins_pipeline docs = []
   \<and> unique_tracks_pipeline docs = []"
  using assms
  by (simp add: getTopTracksByPlayTime_def tracks_by_time_sorted_def tracks_by_time_groups_def
      getTopTracksByPlayCount_def tracks_by_count_groups_def
      getTopAlbumsByPlayTime_def albums_by_time_sorted_def albums_groups_def
      getTopAlbumsByPlayCount_def
      getTopArtistsByPlayTime_def artists_by_time_groups_def
      getTopArtistsByPlayCount_def artists_by_count_groups_def
      getTopDaysByPlayTime_def days_by_time_groups_def
      getTopDaysByPlayCount_def days_by_count_groups_def
      total_mins_pipeline_def unique_tracks_pipeline_def count_stage_def
      group_stage_Nil sort_stage_desc_def limit_stage_def)

theorem empty_filtered_set_reports_witness:
  "match_stage [play_short] = []
   \<and> getTopTracksByPlayTime [play_short] = []
   \<and> getTopDaysByPlayCount [play_short] = []
   \<and> total_mins_pipeline [play_short] = []
   \<and> unique_tracks_pipeline [play_short] = []"
proof -
  have h: "match_stage [play_short] = []"
    by (simp add: sample_defs filter_defs)
  from empty_filtered_set_reports [OF h] h show ?thesis
    by simp
qed

theorem scalar_summaries_empty_counterexample:
  "match_stage [] = []
   \<and> getTotalMinsPlayed [] = Inl TypeError
   \<and> getTotalUniqueTracksPlayed [] = Inl TypeError
   \<and> program [] = ([GetTotalMinsPlayed], Inl TypeError)"
  by (simp add: match_stage_def getTotalMinsPlayed_def total_mins_pipeline_def
      getTotalUniqueTracksPlayed_def unique_tracks_pipeline_def count_stage_def group_stage_Nil
      program_def)

text \<open>
  C2, as amended. When \<^verbatim>\<open>importPlays\<close> decodes a non-empty batch, it logs the file and the
  number of records and goes on to the next file; it leaves the collection as it was; and
  a program run does not call \<^verbatim>\<open>importPlays\<close>. The claim as stated fails: after the import
  of a batch of one record the collection is still empty, and the run consists of the ten
  report calls only.
\<close>

theorem importPlays_inserts_nothing:
  assumes "str_endsWith (name entry) ''.json''" and "str_includes (name entry) ''Audio''"
    and "\<not> is_directory entry"
    and "contents entry = Some fileContents" and "fileContents \<noteq> []"
    and "parse fileContents = Some (JArr plays)" and "plays \<noteq> []"
  shows "importPlays_loop parse (entry # files) logged db =
           importPlays_loop parse files
             (logged @ [ProcessingFile (name entry), InsertingRecords (Some (JNum (of_nat (length plays))))]) db
     \<and> snd (snd (importPlays parse (entry # files) db)) = db
     \<and> ImportPlays \<notin> set (fst (program docs))"
  using assms
  by (simp add: importPlays_def importPlays_loop_store program_calls)

theorem importPlays_inserts_nothing_witness:
  "str_endsWith (name audio_ok) ''.json'' \<and> str_includes (name audio_ok) ''Audio''
   \<and> \<not> is_directory audio_ok \<and> contents audio_ok = Some ''[{}]''
   \<and> parse_samples ''[{}]'' = Some (JArr [JObj []])
   \<and> importPlays_loop parse_samples [audio_ok] [] ([] :: json list) =
        (Inr (), [ProcessingFile ''Streaming_History_Audio_2024.json'', InsertingRecords (Some (JNum 1))], [])
   \<and> snd (snd (importPlays parse_samples [audio_ok] ([] :: json list))) = []"
proof -
  have h: "str_endsWith (name audio_ok) ''.json''" "str_includes (name audio_ok) ''Audio''"
    "\<not> is_directory audio_ok" "contents audio_ok = Some ''[{}]''" "''[{}]'' \<noteq> []"
    "parse_samples ''[{}]'' = Some (JArr [JObj []])" "[JObj []] \<noteq> []"
    by (simp_all add: import_sample_defs name_checks_ok)
  from importPlays_inserts_nothing [where entry = audio_ok and fileContents = "''[{}]''"
      and parse = parse_samples and plays = "[JObj []]" and files = "[]" and logged = "[]"
      and db = "[] :: json list"] h
  show ?thesis
    by (simp add: audio_ok_def)
qed

theorem importPlays_store_counterexample:
  "importPlays parse_samples [audio_ok] ([] :: json list) =
     (Inr (), [ProcessingFile ''Streaming_History_Audio_2024.json'', InsertingRecords (Some (JNum 1))], [])
   \<and> fst (program [play_a1]) =
       [GetTotalMinsPlayed, GetTotalUniqueTracksPlayed,
        GetTopTracksByPlayTime, GetTopArtistsByPlayTime, GetTopAlbumsByPlayTime,
        GetTopDaysByPlayTime, GetTopTracksByPlayCount, GetTopArtistsByPlayCount,
        GetTopAlbumsByPlayCount, GetTopDaysByPlayCount]"
  by (simp add: importPlays_def import_sample_defs name_checks_ok program_def
      getTotalMinsPlayed_def total_mins_pipeline_def getTotalUniqueTracksPlayed_def
      unique_tracks_pipeline_def count_stage_def group_stage_def sample_defs filter_defs)

text \<open>
  C3, as amended. For a file that passes the name checks: with empty content, or content
  that decodes to an empty batch, it is logged and skipped and the import continues with
  the remaining files; with content that fails to decode, the SyntaxError ends the import
  at that file, after the files before it and before any file after it. The claim as
  stated fails: a malformed first file ends the run and the second file is not processed.
\<close>

theorem malformed_file_ends_import:
  assumes "str_endsWith (name entry) ''.json''" and "str_includes (name entry) ''Audio''"
    and "\<not> is_directory entry"
    and "contents entry = Some fileContents"
  shows "(fileContents = [] \<longrightarrow>
            importPlays_loop parse (entry # files) logged db =
              importPlays_loop parse files
                (logged @ [ProcessingFile (name entry), SkippingEmptyFile (name entry)]) db)
     \<and> (fileContents \<noteq> [] \<and> parse fileContents = Some (JArr []) \<longrightarrow>
            importPlays_loop parse (entry # files) logged db =
              importPlays_loop parse files
                (logged @ [ProcessingFile (name entry), SkippingNoRecords (name entry)]) db)
     \<and> (fileContents \<noteq> [] \<and> parse fileContents = None \<longrightarrow>
            importPlays_loop parse (entry # files) logged db =
              (Inl SyntaxError, logged @ [ProcessingFile (name entry)], db))
     \<and> (fileContents \<noteq> [] \<and> parse fileContents = None
          \<and> importPlays parse pre db = (Inr (), logged', db) \<longrightarrow>
            importPlays parse (pre @ entry # files) db =
              (Inl SyntaxError, logged' @ [ProcessingFile (name entry)], db))"
  using assms
  by (simp add: importPlays_def importPlays_loop_append)

theorem malformed_file_ends_import_witness:
  "str_endsWith (name audio_bad) ''.json'' \<and> str_includes (name audio_bad) ''Audio''
   \<and> \<not> is_directory audio_bad \<and> contents audio_bad = Some ''[{'' \<and> parse_samples ''[{'' = None
   \<and> importPlays parse_samples [audio_ok] ([] :: json list) =
       (Inr (), [ProcessingFile ''Streaming_History_Audio_2024.json'', InsertingRecords (Some (JNum 1))], [])
   \<and> importPlays parse_samples [audio_ok, audio_bad, audio_ok] ([] :: json list) =
       (Inl SyntaxError,
        [ProcessingFile ''Streaming_History_Audio_2024.json'', InsertingRecords (Some (JNum 1)),
         ProcessingFile ''Streaming_History_Audio_2023.json''], [])
   \<and> contents audio_empty = Some []
   \<and> importPlays_loop parse_samples [audio_empty, audio_ok] [] ([] :: json list) =
       (Inr (),
        [ProcessingFile ''Streaming_History_Audio_2022.json'', SkippingEmptyFile ''Streaming_History_Audio_2022.json'',
         ProcessingFile ''Streaming_History_Audio_2024.json'', InsertingRecords (Some (JNum 1))], [])
   \<and> contents audio_no_records = Some ''[]'' \<and> parse_samples ''[]'' = Some (JArr [])
   \<and> importPlays_loop parse_samples [audio_no_records, audio_ok] [] ([] :: json list) =
       (Inr (),
        [ProcessingFile ''Streaming_History_Audio_2021.json'', SkippingNoRecords ''Streaming_History_Audio_2021.json'',
         ProcessingFile ''Streaming_History_Audio_2024.json'', InsertingRecords (Some (JNum 1))], [])"
proof -
  have h: "str_endsWith (name audio_bad) ''.json''" "str_includes (name audio_bad) ''Audio''"
    "\<not> is_directory audio_bad" "contents audio_bad = Some ''[{''"
    by (simp_all add: import_sample_defs name_checks_ok)
  have p: "''[{'' \<noteq> [] \<and> parse_samples ''[{'' = None"
    by (simp add: parse_samples_def)
  have ok: "importPlays parse_samples [audio_ok] ([] :: json list) =
       (Inr (), [ProcessingFile ''Streaming_History_Audio_2024.json'', InsertingRecords (Some (JNum 1))], [])"
    by (simp add: importPlays_def import_sample_defs name_checks_ok)
  have rest: "importPlays_loop parse_samples [audio_ok] logged ([] :: json list) =
       (Inr (), logged @ [ProcessingFile ''Streaming_History_Audio_2024.json'', InsertingRecords (Some (JNum 1))], [])"
    for logged
    by (simp add: import_sample_defs name_checks_ok)
  have bad: "importPlays parse_samples [audio_ok, audio_bad, audio_ok] ([] :: json list) =
       (Inl SyntaxError,
        [ProcessingFile ''Streaming_History_Audio_2024.json'', InsertingRecords (Some (JNum 1)),
         ProcessingFile ''Streaming_History_Audio_2023.json''], [])"
    using malformed_file_ends_import [where entry = audio_bad and fileContents = "''[{''"
      and parse = parse_samples and pre = "[audio_ok]" and files = "[audio_ok]"
      and db = "[] :: json list"] p ok h
    by (simp add: audio_bad_def)
  have he: "str_endsWith (name audio_empty) ''.json''" "str_includes (name audio_empty) ''Audio''"
    "\<not> is_directory audio_empty" "contents audio_empty = Some []"
    by (simp_all add: import_sample_defs name_checks_ok)
  have empty: "importPlays_loop parse_samples [audio_empty, audio_ok] [] ([] :: json list) =
       (Inr (),
        [ProcessingFile ''Streaming_History_Audio_2022.json'', SkippingEmptyFile ''Streaming_History_Audio_2022.json'',
         ProcessingFile ''Streaming_History_Audio_2024.json'', InsertingRecords (Some (JNum 1))], [])"
  proof -
    have "importPlays_loop parse_samples [audio_empty, audio_ok] [] ([] :: json list) =
        importPlays_loop parse_samples [audio_ok]
          ([] @ [ProcessingFile (name audio_empty), SkippingEmptyFile (name audio_empty)]) []"
      using malformed_file_ends_import [where entry = audio_empty and fileContents = "[]"
        and parse = parse_samples and files = "[audio_ok]" and logged = "[]"
        and db = "[] :: json list"] he
      by blast
    then show ?thesis
      unfolding rest by (simp add: audio_empty_def)
  qed
  have hn: "str_endsWith (name audio_no_records) ''.json''" "str_includes (name audio_no_records) ''Audio''"
    "\<not> is_directory audio_no_records" "contents audio_no_records = Some ''[]''"
    by (simp_all add: import_sample_defs name_checks_ok)
  have pn: "parse_samples ''[]'' = Some (JArr [])"
    by (simp add: parse_samples_def)
  have none: "importPlays_loop parse_samples [audio_no_records, audio_ok] [] ([] :: json list) =
       (Inr (),
        [ProcessingFile ''Streaming_History_Audio_2021.json'', SkippingNoRecords ''Streaming_History_Audio_2021.json'',
         ProcessingFile ''Streaming_History_Audio_2024.json'', InsertingRecords (Some (JNum 1))], [])"
  proof -
    have "''[]'' \<noteq> ([] :: string)"
      by simp
    then have "importPlays_loop parse_samples [audio_no_records, audio_ok] [] ([] :: json list) =
        importPlays_loop parse_samples [audio_ok]
          ([] @ [ProcessingFile (name audio_no_records), SkippingNoRecords (name audio_no_records)]) []"
      using malformed_file_ends_import [where entry = audio_no_records and fileContents = "''[]''"
        and parse = parse_samples and files = "[audio_ok]" and logged = "[]"
        and db = "[] :: json list"] hn pn
      by blast
    then show ?thesis
      unfolding rest by (simp add: audio_no_records_def)
  qed
  from h p ok bad he(4) empty hn(4) pn none show ?thesis
    by blast
qed

theorem malformed_file_counterexample:
  "importPlays parse_samples [audio_bad, audio_ok] ([] :: json list) =
     (Inl SyntaxError, [ProcessingFile ''Streaming_History_Audio_2023.json''], [])
   \<and> importPlays parse_samples [audio_ok] ([] :: json list) =
     (Inr (), [ProcessingFile ''Streaming_History_Audio_2024.json'', InsertingRecords (Some (JNum 1))], [])"
  by (simp add: importPlays_def import_sample_defs name_checks_ok)

text \<open>
  C4. A play event that is in incognito mode, or played for less than 30000 ms, or whose
  timestamp lies outside the half-open year 2024, or whose track URI is in the exclusion
  set, does not match the shared filter and contributes to no report: each of the two
  scalar summaries and eight leaderboards returns the same on a store with the event as
  on the store without it.
\<close>

theorem filter_excludes_from_every_report:
  assumes "incognito_mode e \<or> ms_played e < 30000 \<or> ts e < range_start \<or> range_end \<le> ts e
           \<or> spotify_track_uri e \<in> Some ` set excluded_track_uris"
  shows "\<not> matches_filter e
    \<and> match_stage (xs @ e # ys) = match_stage (xs @ ys)
    \<and> getTotalMinsPlayed (xs @ e # ys) = getTotalMinsPlayed (xs @ ys)
    \<and> getTotalUniqueTracksPlayed (xs @ e # ys) = getTotalUniqueTracksPlayed (xs @ ys)
    \<and> getTopTracksByPlayTime (xs @ e # ys) = getTopTracksByPlayTime (xs @ ys)
    \<and> getTopTracksByPlayCount (xs @ e # ys) = getTopTracksByPlayCount (xs @ ys)
    \<and> getTopAlbumsByPlayTime (xs @ e # ys) = getTopAlbumsByPlayTime (xs @ ys)
    \<and> getTopAlbumsByPlayCount (xs @ e # ys) = getTopAlbumsByPlayCount (xs @ ys)
    \<and> getTopArtistsByPlayTime (xs @ e # ys) = getTopArtistsByPlayTime (xs @ ys)
    \<and> getTopArtistsByPlayCount (xs @ e # ys) = getTopArtistsByPlayCount (xs @ ys)
    \<and> getTopDaysByPlayTime (xs @ e # ys) = getTopDaysByPlayTime (xs @ ys)
    \<and> getTopDaysByPlayCount (xs @ e # ys) = getTopDaysByPlayCount (xs @ ys)"
proof -
  have no: "\<not> matches_filter e"
    using assms by (auto simp: matches_filter_def split: option.splits)
  have m: "match_stage (xs @ e # ys) = match_stage (xs @ ys)"
    by (rule match_stage_drop [OF no])
  show ?thesis
    unfolding getTotalMinsPlayed_def total_mins_pipeline_def
      getTotalUniqueTracksPlayed_def unique_tracks_pipeline_def
      getTopTracksByPlayTime_def tracks_by_time_sorted_def tracks_by_time_groups_def
      getTopTracksByPlayCount_def tracks_by_count_groups_def
      getTopAlbumsByPlayTime_def albums_by_time_sorted_def albums_groups_def
      getTopAlbumsByPlayCount_def
      getTopArtistsByPlayTime_def artists_by_time_groups_def
      getTopArtistsByPlayCount_def artists_by_count_groups_def
      getTopDaysByPlayTime_def days_by_time_groups_def
      getTopDaysByPlayCount_def days_by_count_groups_def m
    using no by simp
qed

theorem filter_excludes_from_every_report_witness:
  "ms_played play_short < 30000
    \<and> match_stage [play_a1, play_short, play_b] = [play_a1, play_b]
    \<and> getTotalMinsPlayed [play_a1, play_short, play_b] = getTotalMinsPlayed [play_a1, play_b]
    \<and> getTopTracksByPlayTime [play_a1, play_short, play_b] = getTopTracksByPlayTime [play_a1, play_b]
    \<and> getTopDaysByPlayCount [play_a1, play_short, play_b] = getTopDaysByPlayCount [play_a1, play_b]"
proof -
  have h: "ms_played play_short < 30000"
    by (simp add: sample_defs)
  have "match_stage [play_a1, play_b] = [play_a1, play_b]"
    by (simp add: sample_defs filter_defs)
  with h filter_excludes_from_every_report [of play_short "[play_a1]" "[play_b]"]
  show ?thesis by simp
qed



text \<open>
  C6. For a non-empty filtered set, \<^verbatim>\<open>getTotalUniqueTracksPlayed\<close> returns the number of
  distinct \<^verbatim>\<open>spotify_track_uri\<close> values among the records that match the filter.
\<close>

theorem getTotalUniqueTracksPlayed_value:
  assumes "match_stage docs \<noteq> []"
  shows "getTotalUniqueTracksPlayed docs = Inr (int (card (spotify_track_uri ` set (match_stage docs))))"
proof -
  have "group_stage spotify_track_uri (\<lambda>d. ()) (\<lambda>d a. a) (match_stage docs) \<noteq> []"
    using assms group_stage_keys [of spotify_track_uri "\<lambda>d. ()" "\<lambda>d a. a" "match_stage docs"]
    by (metis image_is_empty list.simps(8) set_empty)
  then show ?thesis
    by (simp add: getTotalUniqueTracksPlayed_def unique_tracks_pipeline_def count_stage_def group_stage_length)
qed

theorem getTotalUniqueTracksPlayed_value_witness:
  "match_stage [play_a1, play_a2, play_b] \<noteq> []
   \<and> getTotalUniqueTracksPlayed [play_a1, play_a2, play_b] = Inr 2"
proof -
  have m: "match_stage [play_a1, play_a2, play_b] = [play_a1, play_a2, play_b]"
    by (simp add: sample_defs filter_defs)
  with getTotalUniqueTracksPlayed_value [of "[play_a1, play_a2, play_b]"] show ?thesis
    by (simp add: sample_defs)
qed

text \<open>
  C7. For every store, the groups of the Top Tracks by Time pipeline, before the limit,
  partition the filtered records by track URI: the group keys are distinct and are the
  URIs of the filtered set, and the per-group \<^verbatim>\<open>total_ms_played\<close> sums, after \<^verbatim>\<open>$group\<close> and
  after \<^verbatim>\<open>$sort\<close>, to the sum of \<^verbatim>\<open>ms_played\<close> over the filtered set.
\<close>

theorem top_tracks_groups_partition:
  "sum_list (map (\<lambda>(k, g). total_ms_played g) (tracks_by_time_groups docs)) = sum_list (map ms_played (match_stage docs))
   \<and> sum_list (map (\<lambda>(k, g). total_ms_played g) (tracks_by_time_sorted docs)) = sum_list (map ms_played (match_stage docs))
   \<and> distinct (map fst (tracks_by_time_groups docs))
   \<and> set (map fst (tracks_by_time_groups docs)) = spotify_track_uri ` set (match_stage docs)"
proof -
  have fn: "(\<lambda>(k, g). total_ms_played g) = (\<lambda>r. total_ms_played (snd r))"
    by (simp add: fun_eq_iff split: prod.splits)
  have s: "sum_list (map (\<lambda>r. total_ms_played (snd r)) (tracks_by_time_groups docs)) = sum_list (map ms_played (match_stage docs))"
    unfolding tracks_by_time_groups_def
    by (rule group_stage_sum) simp_all
  then show ?thesis
    unfolding fn tracks_by_time_sorted_def sort_stage_desc_def sum_list_sort_key
    using group_stage_keys [of spotify_track_uri _ _ "match_stage docs"]
    by (simp add: tracks_by_time_groups_def)
qed

text \<open>
  C8. \<^verbatim>\<open>getTopAlbumsByPlayTime\<close> does not return the album groups in descending order of
  total ms played: it sorts on the rounded \<^verbatim>\<open>total_play_time_mins\<close>. On the store that holds
  one play of 30000 ms of Album P by Artist X and then one play of 30100 ms of Album Q by
  Artist Y, both album rows get the sort key 0.5, so the sort cannot tell them apart, and
  Album P is listed before Album Q although Q has the larger sum of \<^verbatim>\<open>ms_played\<close>; the
  artists leaderboard, which sorts on the sum itself, lists Artist Y first on the same
  store.
\<close>

theorem top_albums_sorted_on_rounded_minutes:
  "map albums_by_time_project (albums_groups [play_p, play_q]) =
     [(Some ''Album P'',
       \<lparr>at_artist_name = Some ''Artist X'', at_total_play_time_mins = 1 / 2, at_total_play_time_hours = 1 / 100\<rparr>),
      (Some ''Album Q'',
       \<lparr>at_artist_name = Some ''Artist Y'', at_total_play_time_mins = 1 / 2, at_total_play_time_hours = 1 / 100\<rparr>)]
   \<and> getTopAlbumsByPlayTime [play_p, play_q] =
     [(Some ''Album P'',
       \<lparr>at_artist_name = Some ''Artist X'', at_total_play_time_mins = 1 / 2, at_total_play_time_hours = 1 / 100\<rparr>),
      (Some ''Album Q'',
       \<lparr>at_artist_name = Some ''Artist Y'', at_total_play_time_mins = 1 / 2, at_total_play_time_hours = 1 / 100\<rparr>)]
   \<and> group_ms master_metadata_album_album_name (Some ''Album P'') [play_p, play_q] = 30000
   \<and> group_ms master_metadata_album_album_name (Some ''Album Q'') [play_p, play_q] = 30100
   \<and> getTopArtistsByPlayTime [play_p, play_q] =
     [(Some ''Artist Y'', \<lparr>total_play_time_mins = 1 / 2, total_play_time_hours = 1 / 100\<rparr>),
      (Some ''Artist X'', \<lparr>total_play_time_mins = 1 / 2, total_play_time_hours = 1 / 100\<rparr>)]"
proof -
  have "map albums_by_time_project (albums_groups [play_p, play_q]) =
     [(Some ''Album P'',
       \<lparr>at_artist_name = Some ''Artist X'', at_total_play_time_mins = 1 / 2, at_total_play_time_hours = 1 / 100\<rparr>),
      (Some ''Album Q'',
       \<lparr>at_artist_name = Some ''Artist Y'', at_total_play_time_mins = 1 / 2, at_total_play_time_hours = 1 / 100\<rparr>)]"
    by (simp add: pipeline_defs sample_defs filter_defs sample_minutes sample_hours)
  moreover have "group_ms master_metadata_album_album_name (Some ''Album P'') [play_p, play_q] = 30000"
    by (simp add: group_ms_def sample_defs filter_defs)
  moreover have "group_ms master_metadata_album_album_name (Some ''Album Q'') [play_p, play_q] = 30100"
    by (simp add: group_ms_def sample_defs filter_defs)
  moreover have "getTopArtistsByPlayTime [play_p, play_q] =
     [(Some ''Artist Y'', \<lparr>total_play_time_mins = 1 / 2, total_play_time_hours = 1 / 100\<rparr>),
      (Some ''Artist X'', \<lparr>total_play_time_mins = 1 / 2, total_play_time_hours = 1 / 100\<rparr>)]"
    by (simp add: pipeline_defs sample_defs filter_defs sample_minutes sample_hours)
  ultimately show ?thesis
    by (simp only: top_albums_p_q)
qed

text \<open>
  C9, as amended. Every derived minutes field is the group's integer sum of \<^verbatim>\<open>ms_played\<close>
  divided by 60000, and every derived hours field that sum divided by 3600000, the
  quotient being the double that \<^verbatim>\<open>$divide\<close> returns; each is rounded to two decimal places
  by \<^verbatim>\<open>$round\<close>, to the hundredth nearest to that double and to the even hundredth when the
  double lies exactly halfway; and each is computed from the integer sum itself. The
  claim as stated fails: a single play of 37500 ms is exactly 0.625 minutes, also as a
  double, which the pipeline reports as 0.62 where rounding half away from zero gives 0.63.
\<close>

theorem derived_fields_round_half_even:
  "(\<forall>(k, r) \<in> set (getTopTracksByPlayTime docs).
      rounds_half_even_2dp (divide_stage (group_ms spotify_track_uri k docs) 60000) (total_mins_played r)
    \<and> rounds_half_even_2dp (divide_stage (group_ms spotify_track_uri k docs) 3600000) (total_hours r))
 \<and> (\<forall>(k, r) \<in> set (getTopAlbumsByPlayTime docs).
      rounds_half_even_2dp (divide_stage (group_ms master_metadata_album_album_name k docs) 60000) (at_total_play_time_mins r)
    \<and> rounds_half_even_2dp (divide_stage (group_ms master_metadata_album_album_name k docs) 3600000) (at_total_play_time_hours r))
 \<and> (\<forall>(k, r) \<in> set (getTopArtistsByPlayTime docs).
      rounds_half_even_2dp (divide_stage (group_ms master_metadata_album_artist_name k docs) 60000) (total_play_time_mins r)
    \<and> rounds_half_even_2dp (divide_stage (group_ms master_metadata_album_artist_name k docs) 3600000) (total_play_time_hours r))
 \<and> (\<forall>(k, r) \<in> set (getTopDaysByPlayTime docs).
      rounds_half_even_2dp (divide_stage (group_ms (\<lambda>d. dateToString (ts d)) k docs) 60000) (total_play_time_mins r)
    \<and> rounds_half_even_2dp (divide_stage (group_ms (\<lambda>d. dateToString (ts d)) k docs) 3600000) (total_play_time_hours r))
 \<and> (\<forall>v. getTotalMinsPlayed docs = Inr v \<longrightarrow>
      rounds_half_even_2dp (divide_stage (sum_list (map ms_played (match_stage docs))) 60000) v)"
proof (intro conjI)
  show "\<forall>(k, r) \<in> set (getTopTracksByPlayTime docs).
      rounds_half_even_2dp (divide_stage (group_ms spotify_track_uri k docs) 60000) (total_mins_played r)
    \<and> rounds_half_even_2dp (divide_stage (group_ms spotify_track_uri k docs) 3600000) (total_hours r)"
    using tracks_time_row mins_of_ms_half_even hours_of_ms_half_even by fastforce
  show "\<forall>(k, r) \<in> set (getTopAlbumsByPlayTime docs).
      rounds_half_even_2dp (divide_stage (group_ms master_metadata_album_album_name k docs) 60000) (at_total_play_time_mins r)
    \<and> rounds_half_even_2dp (divide_stage (group_ms master_metadata_album_album_name k docs) 3600000) (at_total_play_time_hours r)"
    using albums_time_row mins_of_ms_half_even hours_of_ms_half_even by fastforce
  show "\<forall>(k, r) \<in> set (getTopArtistsByPlayTime docs).
      rounds_half_even_2dp (divide_stage (group_ms master_metadata_album_artist_name k docs) 60000) (total_play_time_mins r)
    \<and> rounds_half_even_2dp (divide_stage (group_ms master_metadata_album_artist_name k docs) 3600000) (total_play_time_hours r)"
    unfolding getTopArtistsByPlayTime_def artists_by_time_groups_def
    using play_time_row mins_of_ms_half_even hours_of_ms_half_even by fastforce
  show "\<forall>(k, r) \<in> set (getTopDaysByPlayTime docs).
      rounds_half_even_2dp (divide_stage (group_ms (\<lambda>d. dateToString (ts d)) k docs) 60000) (total_play_time_mins r)
    \<and> rounds_half_even_2dp (divide_stage (group_ms (\<lambda>d. dateToString (ts d)) k docs) 3600000) (total_play_time_hours r)"
    unfolding getTopDaysByPlayTime_def days_by_time_groups_def
    using play_time_row [where key = "\<lambda>d. dateToString (ts d)"] mins_of_ms_half_even hours_of_ms_half_even by fastforce
  show "\<forall>v. getTotalMinsPlayed docs = Inr v \<longrightarrow>
      rounds_half_even_2dp (divide_stage (sum_list (map ms_played (match_stage docs))) 60000) v"
    using mins_of_ms_half_even
    by (auto simp: getTotalMinsPlayed_def total_mins_pipeline_def group_stage_unit split: list.splits if_splits)
qed

theorem derived_fields_round_half_even_witness:
  "(Some ''spotify:track:B'',
       \<lparr>tt_track_name = Some ''Track B'', tt_artist_name = Some ''Artist Y'',
        total_mins_played = 31 / 50, total_hours = 1 / 100\<rparr>) \<in> set (getTopTracksByPlayTime [play_tie])
   \<and> group_ms spotify_track_uri (Some ''spotify:track:B'') [play_tie] = 37500
   \<and> divide_stage 37500 60000 = 5 / 8
   \<and> rounds_half_even_2dp (5 / 8) (31 / 50)
   \<and> rounds_half_even_2dp (divide_stage 37500 3600000) (1 / 100)
   \<and> getTotalMinsPlayed [play_tie] = Inr (31 / 50)"
proof -
  have g: "group_ms spotify_track_uri (Some ''spotify:track:B'') [play_tie] = 37500"
    by (simp add: group_ms_def sample_defs filter_defs)
  have t: "getTotalMinsPlayed [play_tie] = Inr (31 / 50)"
    by (simp add: pipeline_defs sample_defs filter_defs sample_minutes)
  have d: "divide_stage 37500 60000 = 5 / 8"
    by (simp add: divide_stage_def int_to_double_def nearest_double_def double_defs)
  from derived_fields_round_half_even [of "[play_tie]"] g t show ?thesis
    by (simp add: top_tracks_tie d)
qed

theorem round_half_away_counterexample:
  "getTopTracksByPlayTime [play_tie] =
     [(Some ''spotify:track:B'',
       \<lparr>tt_track_name = Some ''Track B'', tt_artist_name = Some ''Artist Y'',
        total_mins_played = 31 / 50, total_hours = 1 / 100\<rparr>)]
   \<and> group_ms spotify_track_uri (Some ''spotify:track:B'') [play_tie] = 37500
   \<and> divide_stage 37500 60000 = 37500 / 60000
   \<and> (of_int (round_half_away_from_zero (37500 / 60000 * 100)) / 100 :: rat) = 63 / 100
   \<and> getTotalMinsPlayed [play_tie] = Inr (31 / 50)"
proof -
  have "getTopTracksByPlayTime [play_tie] =
     [(Some ''spotify:track:B'',
       \<lparr>tt_track_name = Some ''Track B'', tt_artist_name = Some ''Artist Y'',
        total_mins_played = 31 / 50, total_hours = 1 / 100\<rparr>)]"
    by (simp add: pipeline_defs sample_defs filter_defs sample_minutes sample_hours)
  moreover have "group_ms spotify_track_uri (Some ''spotify:track:B'') [play_tie] = 37500"
    by (simp add: group_ms_def sample_defs filter_defs)
  moreover have "divide_stage 37500 60000 = 37500 / 60000"
    by (simp add: divide_stage_def int_to_double_def nearest_double_def double_defs)
  moreover have "(of_int (round_half_away_from_zero (37500 / 60000 * 100)) / 100 :: rat) = 63 / 100"
    by (simp add: round_half_away_from_zero_def)
  moreover have "getTotalMinsPlayed [play_tie] = Inr (31 / 50)"
    by (simp add: pipeline_defs sample_defs filter_defs sample_minutes)
  ultimately show ?thesis
    by blast
qed

text \<open>
  C10. Each of the eight leaderboards returns at most 10 rows for any store, and the limit
  keeps the order of the sort: the rows returned are the first ten of the sorted rows, and
  among them the rows with equal sort keys are the first groups with that key in the
  order in which the groups were created.
\<close>

theorem leaderboards_limit_and_ties:
  "length (getTopTracksByPlayTime docs) \<le> 10
   \<and> length (getTopTracksByPlayCount docs) \<le> 10
   \<and> length (getTopAlbumsByPlayTime docs) \<le> 10
   \<and> length (getTopAlbumsByPlayCount docs) \<le> 10
   \<and> length (getTopArtistsByPlayTime docs) \<le> 10
   \<and> length (getTopArtistsByPlayCount docs) \<le> 10
   \<and> length (getTopDaysByPlayTime docs) \<le> 10
   \<and> length (getTopDaysByPlayCount docs) \<le> 10
   \<and> getTopTracksByPlayTime docs = map tracks_by_time_project (take 10 (tracks_by_time_sorted docs))
   \<and> ties_keep_order (\<lambda>(k, g). total_ms_played g)
         (take 10 (tracks_by_time_sorted docs)) (tracks_by_time_groups docs)
   \<and> ties_keep_order (\<lambda>(k, g). tc_total_play_count g)
         (getTopTracksByPlayCount docs) (tracks_by_count_groups docs)
   \<and> ties_keep_order (\<lambda>(k, r). at_total_play_time_mins r)
         (getTopAlbumsByPlayTime docs) (map albums_by_time_project (albums_groups docs))
   \<and> ties_keep_order (\<lambda>(k, g). total_track_plays_from_album_count g)
         (getTopAlbumsByPlayCount docs) (albums_groups docs)
   \<and> getTopArtistsByPlayTime docs =
         map play_time_project (take 10 (sort_stage_desc snd (artists_by_time_groups docs)))
   \<and> ties_keep_order snd
         (take 10 (sort_stage_desc snd (artists_by_time_groups docs))) (artists_by_time_groups docs)
   \<and> ties_keep_order snd (getTopArtistsByPlayCount docs) (artists_by_count_groups docs)
   \<and> getTopDaysByPlayTime docs =
         map play_time_project (take 10 (sort_stage_desc snd (days_by_time_groups docs)))
   \<and> ties_keep_order snd
         (take 10 (sort_stage_desc snd (days_by_time_groups docs))) (days_by_time_groups docs)
   \<and> getTopDaysByPlayCount docs = take 10 (sort_stage_desc snd (days_by_count_groups docs))
   \<and> ties_keep_order snd (getTopDaysByPlayCount docs) (days_by_count_groups docs)"
proof -
  have id: "map (\<lambda>(k, total_play_count). (k, total_play_count)) rows = rows" for rows :: "(string \<times> int) list"
    by (induction rows) auto
  have days: "getTopDaysByPlayCount docs = take 10 (sort_stage_desc snd (days_by_count_groups docs))"
    by (simp add: getTopDaysByPlayCount_def limit_stage_def id)
  show ?thesis
    unfolding days
    by (simp add: getTopTracksByPlayTime_def getTopTracksByPlayCount_def getTopAlbumsByPlayTime_def
        getTopAlbumsByPlayCount_def getTopArtistsByPlayTime_def getTopArtistsByPlayCount_def
        getTopDaysByPlayTime_def limit_stage_map ties_keep_order_limit_sort
        tracks_by_time_sorted_def albums_by_time_sorted_def)
      (simp add: limit_stage_def ties_keep_order_limit_sort)
qed

end
